theory Spec2Isabelle
  imports Main "HOL-Library.Word" "HOL-Library.Multiset"
begin

section \<open>JavaScript values used by the chat server\<close>

text \<open>
  The fields of an inbound payload are strings that may be absent (\<open>undefined\<close>):
  \<open>string option\<close>. A BSON ObjectId is twelve bytes; a \<open>Date\<close> is a number of
  milliseconds since the epoch.
\<close>

type_synonym objectId = "96 word"
type_synonym date = int

text \<open>\<open>!v\<close> for a string that may be \<open>undefined\<close>: true for \<open>undefined\<close> and for \<open>""\<close>.\<close>

definition falsy :: "string option \<Rightarrow> bool" where
  "falsy v = (case v of None \<Rightarrow> True | Some s \<Rightarrow> s = [])"

text \<open>\<open>v || d\<close> with a string literal \<open>d\<close> on the right.\<close>

definition js_or :: "string option \<Rightarrow> string \<Rightarrow> string option" where
  "js_or v d = (if falsy v then Some d else v)"

text \<open>\<open>${v}\<close> inside a template literal.\<close>

definition template :: "string option \<Rightarrow> string" where
  "template v = (case v of None \<Rightarrow> ''undefined'' | Some s \<Rightarrow> s)"

text \<open>
  \<open>'temp_error_' + Date.now()\<close> appends the decimal digits of an integer
  (\<open>Number.prototype.toString\<close> on an integer below \<open>1e21\<close>).
\<close>

definition dec_digit :: "nat \<Rightarrow> char" where
  "dec_digit n = ''0123456789'' ! (n mod 10)"

fun dec :: "nat \<Rightarrow> string" where
  "dec n = (if n < 10 then [dec_digit n] else dec (n div 10) @ [dec_digit n])"

definition number_toString :: "int \<Rightarrow> string" where
  "number_toString i = (if i < 0 then ''-'' @ dec (nat (- i)) else dec (nat i))"

text \<open>\<open>ObjectId.prototype.toString\<close>: the twelve bytes as 24 lower-case hex digits.\<close>

definition hex_digit :: "nat \<Rightarrow> char" where
  "hex_digit n = ''0123456789abcdef'' ! (n mod 16)"

definition objectId_toString :: "objectId \<Rightarrow> string" where
  "objectId_toString w = map (\<lambda>i. hex_digit (unat w div 16 ^ i)) (rev [0..<24])"

section \<open>The mongoose models (models/Message.js)\<close>

text \<open>
  \<open>ChatSchema\<close> and \<open>MessageSchema\<close>, both with \<open>{ timestamps: true }\<close>, which adds
  \<open>createdAt\<close> and \<open>updatedAt\<close>. The store is the two collections, in insertion order.
  Nothing in the sources deletes a document.
\<close>

record chat =
  chat_id :: objectId
  userId :: string
  userEmail :: string
  status :: string
  lastMessageAt :: date
  chat_createdAt :: date
  chat_updatedAt :: date

record message =
  message_id :: objectId
  chatId :: objectId
  content :: string
  senderType :: string
  senderName :: string
  senderUid :: "string option"
  createdAt :: date
  updatedAt :: date

record store =
  chats :: "chat list"
  messages :: "message list"

text \<open>The object literals handed to \<open>Chat.create\<close> and \<open>Message.create\<close>.\<close>

record new_chat =
  nc_userId :: "string option"
  nc_userEmail :: "string option"
  nc_status :: "string option"

record new_message =
  nm_chatId :: objectId
  nm_content :: "string option"
  nm_senderType :: "string option"
  nm_senderName :: "string option"
  nm_senderUid :: "string option"

definition status_enum :: "string list" where
  "status_enum = [''ai_active'', ''human_needed'', ''human_active'', ''closed'']"

definition senderType_enum :: "string list" where
  "senderType_enum = [''user'', ''ai'', ''human_agent'']"

text \<open>
  \<open>required: true\<close> on a \<open>String\<close> path rejects \<open>undefined\<close> and the empty string; an
  \<open>enum\<close> rejects every value outside its list; a path with a \<open>default\<close> and no
  \<open>required\<close> accepts \<open>undefined\<close>.
\<close>

definition required :: "string option \<Rightarrow> bool" where
  "required v = (\<not> falsy v)"

definition ChatSchema_valid :: "new_chat \<Rightarrow> bool" where
  "ChatSchema_valid n =
     (required (nc_userId n) \<and> required (nc_userEmail n) \<and>
      (case nc_status n of None \<Rightarrow> True | Some st \<Rightarrow> st \<in> set status_enum))"

definition MessageSchema_valid :: "new_message \<Rightarrow> bool" where
  "MessageSchema_valid n =
     (required (nm_content n) \<and>
      required (nm_senderType n) \<and>
      (case nm_senderType n of None \<Rightarrow> False | Some t \<Rightarrow> t \<in> set senderType_enum) \<and>
      required (nm_senderName n))"

text \<open>The value a validated \<open>String\<close> path is stored with.\<close>

definition cast_string :: "string option \<Rightarrow> string" where
  "cast_string v = (case v of None \<Rightarrow> [] | Some s \<Rightarrow> s)"

section \<open>The world outside the handler\<close>

text \<open>
  Every \<open>await\<close> of the handlers is a call to an external system, which may throw. The
  environment of one event says which calls throw, what the generator answers, which
  ObjectId the driver draws for a created document and what the clock reads where the
  code or mongoose reads it.
\<close>

datatype call =
  FindChat | CreateChat | SaveChat | WriteUserMessage | Generate | WriteAssistantMessage |
  FindMessages

datatype clock_site =
  Stamp call | DefaultLastMessageAt | TouchChat | FallbackId | FallbackTimestamp

datatype error = TypeError | StoreFault | ValidationError | DuplicateKey | GenerationFailure

record env =
  fault :: "call \<Rightarrow> bool"
  generated :: "string \<Rightarrow> string"
  new_oid :: "call \<Rightarrow> objectId"
  clock :: "clock_site \<Rightarrow> date"

subsection \<open>Store operations\<close>

text \<open>\<open>Chat.findOne({ userId: uid })\<close>: the first chat of that user, or \<open>null\<close>.\<close>

definition Chat_findOne :: "env \<Rightarrow> string option \<Rightarrow> store \<Rightarrow> error + chat option \<times> store" where
  "Chat_findOne env uid s =
     (if fault env FindChat then Inl StoreFault
      else Inr (find (\<lambda>c. Some (userId c) = uid) (chats s), s))"

text \<open>
  \<open>Chat.create\<close>: validation against the schema, then the insert, which the unique
  indexes on \<open>_id\<close> and on \<open>userId\<close> (\<open>unique: true\<close>) may refuse.
\<close>

definition Chat_create :: "env \<Rightarrow> new_chat \<Rightarrow> store \<Rightarrow> error + chat \<times> store" where
  "Chat_create env n s =
     (if \<not> ChatSchema_valid n then Inl ValidationError
      else if fault env CreateChat then Inl StoreFault
      else if cast_string (nc_userId n) \<in> set (map userId (chats s))
              \<or> new_oid env CreateChat \<in> set (map chat_id (chats s)) then Inl DuplicateKey
      else
        let doc = \<lparr>chat_id = new_oid env CreateChat,
                   userId = cast_string (nc_userId n),
                   userEmail = cast_string (nc_userEmail n),
                   status = (case nc_status n of None \<Rightarrow> ''ai_active'' | Some st \<Rightarrow> st),
                   lastMessageAt = clock env DefaultLastMessageAt,
                   chat_createdAt = clock env (Stamp CreateChat),
                   chat_updatedAt = clock env (Stamp CreateChat)\<rparr>
        in Inr (doc, s\<lparr>chats := chats s @ [doc]\<rparr>))"

text \<open>\<open>chat.save()\<close>: the document replaces the stored one of the same \<open>_id\<close>.\<close>

definition chat_save :: "env \<Rightarrow> chat \<Rightarrow> store \<Rightarrow> error + chat \<times> store" where
  "chat_save env c s =
     (if fault env SaveChat then Inl StoreFault
      else
        let doc = c\<lparr>chat_updatedAt := clock env (Stamp SaveChat)\<rparr>
        in Inr (doc, s\<lparr>chats := map (\<lambda>x. if chat_id x = chat_id doc then doc else x) (chats s)\<rparr>))"

text \<open>\<open>Message.create\<close>, at the call site \<open>c\<close> (the user message or the assistant one).\<close>

definition Message_create :: "env \<Rightarrow> call \<Rightarrow> new_message \<Rightarrow> store \<Rightarrow> error + message \<times> store" where
  "Message_create env c n s =
     (if \<not> MessageSchema_valid n then Inl ValidationError
      else if fault env c then Inl StoreFault
      else if new_oid env c \<in> set (map message_id (messages s)) then Inl DuplicateKey
      else
        let doc = \<lparr>message_id = new_oid env c,
                   chatId = nm_chatId n,
                   content = cast_string (nm_content n),
                   senderType = cast_string (nm_senderType n),
                   senderName = cast_string (nm_senderName n),
                   senderUid = nm_senderUid n,
                   createdAt = clock env (Stamp c),
                   updatedAt = clock env (Stamp c)\<rparr>
        in Inr (doc, s\<lparr>messages := messages s @ [doc]\<rparr>))"

text \<open>\<open>Message.find({ chatId: cid }).sort({ createdAt: 1 })\<close>.\<close>

definition Message_find_sorted :: "env \<Rightarrow> objectId \<Rightarrow> store \<Rightarrow> error + message list \<times> store" where
  "Message_find_sorted env cid s =
     (if fault env FindMessages then Inl StoreFault
      else Inr (sort_key createdAt (filter (\<lambda>m. chatId m = cid) (messages s)), s))"

subsection \<open>The generator\<close>

text \<open>
  \<open>model.generateContent(fullPrompt)\<close>, \<open>result.response\<close> and \<open>response.text()\<close>: the
  text, or a throw (an error of the service, a timeout, a refused prompt).
\<close>

definition generateContent :: "env \<Rightarrow> string \<Rightarrow> store \<Rightarrow> error + string \<times> store" where
  "generateContent env prompt s =
     (if fault env Generate then Inl GenerationFailure else Inr (generated env prompt, s))"

section \<open>The socket handler (server.js)\<close>

text \<open>
  What one run of the handler leaves behind: the store, the events emitted on the
  socket of the connection, and the order in which the external calls began and
  ended. The lines the handlers write to the console are left out.
\<close>

record payload =
  data_uid :: "string option"
  data_email :: "string option"
  data_content :: "string option"
  data_senderName :: "string option"

record wire =
  wire_id :: string
  wire_content :: string
  wire_senderType :: string
  wire_senderName :: string
  timestamp :: date

datatype event = Began call | Completed call | Failed call | EmitReply | EmitFallback

record run =
  db :: store
  outbox :: "wire list"
  trace :: "event list"

datatype completion = Resolved | Rejected error

definition log :: "event \<Rightarrow> run \<Rightarrow> run" where
  "log e r = r\<lparr>trace := trace r @ [e]\<rparr>"

text \<open>
  \<open>await f\<close>: the call begins, and the handler goes on only once it has settled, with
  its value or with its exception.
\<close>

definition await :: "call \<Rightarrow> (store \<Rightarrow> error + 'a \<times> store) \<Rightarrow> run \<Rightarrow> (error + 'a) \<times> run" where
  "await c f r =
     (let r1 = log (Began c) r in
      case f (db r1) of
        Inl e \<Rightarrow> (Inl e, log (Failed c) r1)
      | Inr (v, s') \<Rightarrow> (Inr v, log (Completed c) (r1\<lparr>db := s'\<rparr>)))"

text \<open>\<open>socket.emit('receive_message', w)\<close>, from the \<open>try\<close> block or from the \<open>catch\<close>.\<close>

definition socket_emit :: "event \<Rightarrow> wire \<Rightarrow> run \<Rightarrow> run" where
  "socket_emit site w r = log site (r\<lparr>outbox := outbox r @ [w]\<rparr>)"

text \<open>The test of line 154 (and 362): \<open>!data.uid || !data.email || !data.content\<close>.\<close>

definition missing_data :: "payload \<Rightarrow> bool" where
  "missing_data d = (falsy (data_uid d) \<or> falsy (data_email d) \<or> falsy (data_content d))"

text \<open>Lines 164-179 (and 366-372): find the chat of the user, or create it.\<close>

definition find_or_create_chat :: "env \<Rightarrow> payload \<Rightarrow> run \<Rightarrow> (error + chat) \<times> run" where
  "find_or_create_chat env d r =
     (case await FindChat (Chat_findOne env (data_uid d)) r of
        (Inl e, r1) \<Rightarrow> (Inl e, r1)
      | (Inr None, r1) \<Rightarrow>
          await CreateChat
            (Chat_create env \<lparr>nc_userId = data_uid d, nc_userEmail = data_email d,
                              nc_status = Some ''ai_active''\<rparr>) r1
      | (Inr (Some chat), r1) \<Rightarrow>
          await SaveChat (chat_save env (chat\<lparr>lastMessageAt := clock env TouchChat\<rparr>)) r1)"

text \<open>
  Line 194 (and 378). \<open>SYSTEM_PROMPT\<close> is read at startup from a file that is not part
  of the sources: it is the parameter \<open>P\<close>.
\<close>

definition fullPrompt :: "string \<Rightarrow> payload \<Rightarrow> string" where
  "fullPrompt P d =
     P @ [CHR 0x0A, CHR 0x0A] @ ''Client Question: '' @ template (data_content d) @
     [CHR 0x0A] @ ''K'artz Assistant Answer:''"

text \<open>Lines 216-222 (and 119-125, 387-393): the document as sent to the client.\<close>

definition formatted :: "message \<Rightarrow> wire" where
  "formatted msg =
     \<lparr>wire_id = objectId_toString (message_id msg),
      wire_content = content msg,
      wire_senderType = senderType msg,
      wire_senderName = senderName msg,
      timestamp = createdAt msg\<rparr>"

text \<open>The \<open>try\<close> block of the first handler, lines 161-225.\<close>

definition try_block :: "string \<Rightarrow> env \<Rightarrow> payload \<Rightarrow> run \<Rightarrow> (error + unit) \<times> run" where
  "try_block P env d r =
     (case find_or_create_chat env d r of
        (Inl e, r1) \<Rightarrow> (Inl e, r1)
      | (Inr chat, r1) \<Rightarrow>
     (case await WriteUserMessage
             (Message_create env WriteUserMessage
                \<lparr>nm_chatId = chat_id chat,
                 nm_content = data_content d,
                 nm_senderType = Some ''user'',
                 nm_senderName = js_or (data_senderName d) ''Client'',
                 nm_senderUid = data_uid d\<rparr>) r1 of
        (Inl e, r2) \<Rightarrow> (Inl e, r2)
      | (Inr userMessageDoc, r2) \<Rightarrow>
     (case await Generate (generateContent env (fullPrompt P d)) r2 of
        (Inl e, r3) \<Rightarrow> (Inl e, r3)
      | (Inr aiText, r3) \<Rightarrow>
     (case await WriteAssistantMessage
             (Message_create env WriteAssistantMessage
                \<lparr>nm_chatId = chat_id chat,
                 nm_content = Some aiText,
                 nm_senderType = Some ''ai'',
                 nm_senderName = Some ''K'artz Assistant'',
                 nm_senderUid = None\<rparr>) r3 of
        (Inl e, r4) \<Rightarrow> (Inl e, r4)
      | (Inr aiMessageDoc, r4) \<Rightarrow>
          (Inr (), socket_emit EmitReply (formatted aiMessageDoc) r4)))))"

text \<open>The \<open>catch\<close> block of the first handler, lines 226-238.\<close>

definition fallback_reply :: "env \<Rightarrow> wire" where
  "fallback_reply env =
     \<lparr>wire_id = ''temp_error_'' @ number_toString (clock env FallbackId),
      wire_content = ''I apologize, I am having trouble processing your request right now. Please try again later.'',
      wire_senderType = ''ai'',
      wire_senderName = ''System Error'',
      timestamp = clock env FallbackTimestamp\<rparr>"

definition catch_block :: "env \<Rightarrow> run \<Rightarrow> run" where
  "catch_block env r = socket_emit EmitFallback (fallback_reply env) r"

text \<open>
  The first \<open>send_message\<close> handler, lines 149-239. \<open>data\<close> is \<open>None\<close> when the client
  sent the event with no argument: \<open>data.uid\<close> then throws outside the \<open>try\<close>, and the
  promise of the handler is rejected.
\<close>

definition send_message :: "string \<Rightarrow> env \<Rightarrow> payload option \<Rightarrow> store \<Rightarrow> completion \<times> run" where
  "send_message P env data s =
     (let r = \<lparr>db = s, outbox = [], trace = []\<rparr> in
      case data of
        None \<Rightarrow> (Rejected TypeError, r)
      | Some d \<Rightarrow>
          if missing_data d then (Resolved, r)
          else (case try_block P env d r of
                  (Inr u, r') \<Rightarrow> (Resolved, r')
                | (Inl e, r') \<Rightarrow> (Resolved, catch_block env r')))"

subsection \<open>The second handler (server.js, lines 359-399)\<close>

text \<open>
  The second copy of the server passes \<open>data.senderName\<close> as it is and has an empty
  \<open>catch\<close> block (\<open>console.error\<close> and a comment).
\<close>

definition try_block2 :: "string \<Rightarrow> env \<Rightarrow> payload \<Rightarrow> run \<Rightarrow> (error + unit) \<times> run" where
  "try_block2 P env d r =
     (case find_or_create_chat env d r of
        (Inl e, r1) \<Rightarrow> (Inl e, r1)
      | (Inr chat, r1) \<Rightarrow>
     (case await WriteUserMessage
             (Message_create env WriteUserMessage
                \<lparr>nm_chatId = chat_id chat,
                 nm_content = data_content d,
                 nm_senderType = Some ''user'',
                 nm_senderName = data_senderName d,
                 nm_senderUid = data_uid d\<rparr>) r1 of
        (Inl e, r2) \<Rightarrow> (Inl e, r2)
      | (Inr userMessageDoc, r2) \<Rightarrow>
     (case await Generate (generateContent env (fullPrompt P d)) r2 of
        (Inl e, r3) \<Rightarrow> (Inl e, r3)
      | (Inr aiText, r3) \<Rightarrow>
     (case await WriteAssistantMessage
             (Message_create env WriteAssistantMessage
                \<lparr>nm_chatId = chat_id chat,
                 nm_content = Some aiText,
                 nm_senderType = Some ''ai'',
                 nm_senderName = Some ''K'artz Assistant'',
                 nm_senderUid = None\<rparr>) r3 of
        (Inl e, r4) \<Rightarrow> (Inl e, r4)
      | (Inr aiMessageDoc, r4) \<Rightarrow>
          (Inr (), socket_emit EmitReply (formatted aiMessageDoc) r4)))))"

definition send_message2 :: "string \<Rightarrow> env \<Rightarrow> payload option \<Rightarrow> store \<Rightarrow> completion \<times> run" where
  "send_message2 P env data s =
     (let r = \<lparr>db = s, outbox = [], trace = []\<rparr> in
      case data of
        None \<Rightarrow> (Rejected TypeError, r)
      | Some d \<Rightarrow>
          if missing_data d then (Resolved, r)
          else (case try_block2 P env d r of
                  (Inr u, r') \<Rightarrow> (Resolved, r')
                | (Inl e, r') \<Rightarrow> (Resolved, r')))"

section \<open>The history route (server.js, lines 93-137 and 313-349)\<close>

datatype body = Messages "wire list" | ErrorBody string

datatype response = Response nat body

definition chat_history :: "env \<Rightarrow> string \<Rightarrow> store \<Rightarrow> response" where
  "chat_history env uid s =
     (if uid = [] then Response 400 (ErrorBody ''Missing user UID'')
      else
        case Chat_findOne env (Some uid) s of
          Inl e \<Rightarrow> Response 500 (ErrorBody ''Internal Server Error fetching history'')
        | Inr (None, s1) \<Rightarrow> Response 200 (Messages [])
        | Inr (Some chat, s1) \<Rightarrow>
            (case Message_find_sorted env (chat_id chat) s1 of
               Inl e \<Rightarrow> Response 500 (ErrorBody ''Internal Server Error fetching history'')
             | Inr (rawMessages, s2) \<Rightarrow> Response 200 (Messages (map formatted rawMessages))))"

section \<open>Sequences of events\<close>

text \<open>
  The first handler run on one event after the other, each with the environment it
  meets; the store of one run is the store the next one starts from.
\<close>

fun run_events :: "string \<Rightarrow> (env \<times> payload option) list \<Rightarrow> store \<Rightarrow> store" where
  "run_events P [] s = s"
| "run_events P ((env, data) # evs) s = run_events P evs (db (snd (send_message P env data s)))"

section \<open>Handlers that interleave\<close>

text \<open>
  Node runs one handler at a time and switches from one to another at an \<open>await\<close>.
  \<open>advance\<close> is one \<open>await\<close> of the first handler on a valid event, with the code up to
  the next one: the store operation runs on the store as it is then, and the handler
  moves to its next stage or, on an exception, to the end (what the \<open>catch\<close> block emits
  does not touch the store). Only the store is kept here. \<open>interleaved\<close> is one step of
  the server: an event arrives, or one of the handlers under way runs its next \<open>await\<close>.
  A handler that runs alone takes five steps at most.
\<close>

datatype stage =
  Lookup | Creating | Saving chat | WritingUser chat | Generating chat |
  WritingAssistant chat string | Finished

record handler =
  h_env :: env
  h_data :: payload
  h_stage :: stage

definition advance :: "string \<Rightarrow> handler \<Rightarrow> store \<Rightarrow> handler \<times> store" where
  "advance P h s =
     (let env = h_env h; d = h_data h in
      case h_stage h of
        Lookup \<Rightarrow>
          (case Chat_findOne env (data_uid d) s of
             Inl e \<Rightarrow> (h\<lparr>h_stage := Finished\<rparr>, s)
           | Inr (None, s') \<Rightarrow> (h\<lparr>h_stage := Creating\<rparr>, s')
           | Inr (Some chat, s') \<Rightarrow>
               (h\<lparr>h_stage := Saving (chat\<lparr>lastMessageAt := clock env TouchChat\<rparr>)\<rparr>, s'))
      | Creating \<Rightarrow>
          (case Chat_create env \<lparr>nc_userId = data_uid d, nc_userEmail = data_email d,
                                  nc_status = Some ''ai_active''\<rparr> s of
             Inl e \<Rightarrow> (h\<lparr>h_stage := Finished\<rparr>, s)
           | Inr (chat, s') \<Rightarrow> (h\<lparr>h_stage := WritingUser chat\<rparr>, s'))
      | Saving c \<Rightarrow>
          (case chat_save env c s of
             Inl e \<Rightarrow> (h\<lparr>h_stage := Finished\<rparr>, s)
           | Inr (chat, s') \<Rightarrow> (h\<lparr>h_stage := WritingUser chat\<rparr>, s'))
      | WritingUser chat \<Rightarrow>
          (case Message_create env WriteUserMessage
                  \<lparr>nm_chatId = chat_id chat, nm_content = data_content d,
                   nm_senderType = Some ''user'',
                   nm_senderName = js_or (data_senderName d) ''Client'',
                   nm_senderUid = data_uid d\<rparr> s of
             Inl e \<Rightarrow> (h\<lparr>h_stage := Finished\<rparr>, s)
           | Inr (userMessageDoc, s') \<Rightarrow> (h\<lparr>h_stage := Generating chat\<rparr>, s'))
      | Generating chat \<Rightarrow>
          (case generateContent env (fullPrompt P d) s of
             Inl e \<Rightarrow> (h\<lparr>h_stage := Finished\<rparr>, s)
           | Inr (aiText, s') \<Rightarrow> (h\<lparr>h_stage := WritingAssistant chat aiText\<rparr>, s'))
      | WritingAssistant chat aiText \<Rightarrow>
          (case Message_create env WriteAssistantMessage
                  \<lparr>nm_chatId = chat_id chat, nm_content = Some aiText,
                   nm_senderType = Some ''ai'', nm_senderName = Some ''K'artz Assistant'',
                   nm_senderUid = None\<rparr> s of
             Inl e \<Rightarrow> (h\<lparr>h_stage := Finished\<rparr>, s)
           | Inr (aiMessageDoc, s') \<Rightarrow> (h\<lparr>h_stage := Finished\<rparr>, s'))
      | Finished \<Rightarrow> (h, s))"

inductive interleaved :: "string \<Rightarrow> store \<times> handler list \<Rightarrow> store \<times> handler list \<Rightarrow> bool"
  for P :: string where
  arrival: "\<not> missing_data d \<Longrightarrow>
            interleaved P (s, hs) (s, hs @ [\<lparr>h_env = env, h_data = d, h_stage = Lookup\<rparr>])"
| progress: "i < length hs \<Longrightarrow> advance P (hs ! i) s = (h', s') \<Longrightarrow>
             interleaved P (s, hs) (s', hs[i := h'])"

fun run_handler :: "nat \<Rightarrow> string \<Rightarrow> handler \<Rightarrow> store \<Rightarrow> handler \<times> store" where
  "run_handler 0 P h s = (h, s)"
| "run_handler (Suc n) P h s = (case advance P h s of (h', s') \<Rightarrow> run_handler n P h' s')"

definition alone :: "string \<Rightarrow> env \<Rightarrow> payload \<Rightarrow> store \<Rightarrow> store" where
  "alone P env d s =
     snd (run_handler 5 P \<lparr>h_env = env, h_data = d, h_stage = Lookup\<rparr> s)"

section \<open>Notions used in the statements\<close>

text \<open>
  \<open>happens_before a b tr\<close>: if \<open>b\<close> occurs in the trace, \<open>a\<close> occurs before the first
  \<open>b\<close>.
\<close>

definition happens_before :: "event \<Rightarrow> event \<Rightarrow> event list \<Rightarrow> bool" where
  "happens_before a b tr = (b \<in> set tr \<longrightarrow> a \<in> set (takeWhile (\<lambda>e. e \<noteq> b) tr))"

text \<open>The store writes a run has completed: thread writes and message writes.\<close>

definition thread_writes :: "event list \<Rightarrow> nat" where
  "thread_writes tr = length (filter (\<lambda>e. e = Completed CreateChat \<or> e = Completed SaveChat) tr)"

definition message_writes :: "event list \<Rightarrow> nat" where
  "message_writes tr =
     length (filter (\<lambda>e. e = Completed WriteUserMessage \<or> e = Completed WriteAssistantMessage) tr)"

definition store_writes :: "event list \<Rightarrow> nat" where
  "store_writes tr = thread_writes tr + message_writes tr"

text \<open>
  What the unique indexes of the \<open>chats\<close> collection maintain: no two chats share an
  \<open>_id\<close>, and (\<open>unique: true\<close> on \<open>userId\<close>) no two chats share a user.
\<close>

definition unique_indexes :: "store \<Rightarrow> bool" where
  "unique_indexes s = (distinct (map userId (chats s)) \<and> distinct (map chat_id (chats s)))"

text \<open>The threads of a user.\<close>

definition threads_of :: "string \<Rightarrow> store \<Rightarrow> chat list" where
  "threads_of u s = filter (\<lambda>c. userId c = u) (chats s)"

text \<open>
  The attributes of a thread other than its last-activity time (and the \<open>updatedAt\<close>
  stamp mongoose keeps beside it).
\<close>

definition thread_identity :: "chat \<Rightarrow> objectId \<times> string \<times> string \<times> string \<times> date" where
  "thread_identity c = (chat_id c, userId c, userEmail c, status c, chat_createdAt c)"

text \<open>
  What holds of a handler about to save a chat: the store holds a chat of that \<open>_id\<close>
  and user. \<open>same_threads s s'\<close>: every chat of \<open>s\<close> has a chat of the same \<open>_id\<close> and user
  in \<open>s'\<close>.
\<close>

definition pending_ok :: "store \<Rightarrow> handler \<Rightarrow> bool" where
  "pending_ok s h =
     (case h_stage h of
        Saving c \<Rightarrow> (\<exists>x \<in> set (chats s). chat_id x = chat_id c \<and> userId x = userId c)
      | _ \<Rightarrow> True)"

definition same_threads :: "store \<Rightarrow> store \<Rightarrow> bool" where
  "same_threads s s' =
     (\<forall>x \<in> set (chats s). \<exists>x' \<in> set (chats s'). chat_id x' = chat_id x \<and> userId x' = userId x)"

fun interleaved_inv :: "store \<times> handler list \<Rightarrow> bool" where
  "interleaved_inv (s, hs) = (unique_indexes s \<and> (\<forall>h \<in> set hs. pending_ok s h))"

section \<open>Scenarios\<close>

text \<open>
  A fresh store, the event \<open>{uid: "u1", email: "a@b.com", content: "Hello"}\<close>, and
  environments in which every call succeeds, in which the generator is down, and in
  which the same user sends a second message later.
\<close>

definition empty_store :: store where
  "empty_store = \<lparr>chats = [], messages = []\<rparr>"

definition hello :: payload where
  "hello = \<lparr>data_uid = Some ''u1'', data_email = Some ''a@b.com'',
            data_content = Some ''Hello'', data_senderName = None\<rparr>"

definition env_ok :: env where
  "env_ok =
     \<lparr>fault = (\<lambda>c. False),
      generated = (\<lambda>p. ''Hi there''),
      new_oid = (\<lambda>c. case c of CreateChat \<Rightarrow> 1 | WriteUserMessage \<Rightarrow> 2
                              | WriteAssistantMessage \<Rightarrow> 3 | _ \<Rightarrow> 0),
      clock = (\<lambda>t. case t of Stamp WriteUserMessage \<Rightarrow> 1005
                            | Stamp WriteAssistantMessage \<Rightarrow> 1900
                            | FallbackId \<Rightarrow> 1900 | FallbackTimestamp \<Rightarrow> 1901
                            | _ \<Rightarrow> 1000)\<rparr>"

definition env_generator_down :: env where
  "env_generator_down = env_ok\<lparr>fault := (\<lambda>c. c = Generate)\<rparr>"

definition env_later :: env where
  "env_later =
     \<lparr>fault = (\<lambda>c. False),
      generated = (\<lambda>p. ''Gladly''),
      new_oid = (\<lambda>c. case c of WriteUserMessage \<Rightarrow> 4 | WriteAssistantMessage \<Rightarrow> 5 | _ \<Rightarrow> 0),
      clock = (\<lambda>t. case t of Stamp WriteUserMessage \<Rightarrow> 2005
                            | Stamp WriteAssistantMessage \<Rightarrow> 2900
                            | _ \<Rightarrow> 2000)\<rparr>"

definition more_info :: payload where
  "more_info = \<lparr>data_uid = Some ''u1'', data_email = Some ''a@b.com'',
                data_content = Some ''More info'', data_senderName = Some ''Ann''\<rparr>"

text \<open>
  The store after the first message, and a store whose messages were inserted out of
  the order of their creation times, with the answer of the history route for \<open>u1\<close>.
\<close>

definition hello_store :: store where
  "hello_store = db (snd (send_message ''SYS'' env_ok (Some hello) empty_store))"

definition skewed_store :: store where
  "skewed_store =
     \<lparr>chats = [\<lparr>chat_id = 1, userId = ''u1'', userEmail = ''a@b.com'', status = ''ai_active'',
                 lastMessageAt = 1000, chat_createdAt = 1000, chat_updatedAt = 1000\<rparr>,
               \<lparr>chat_id = 7, userId = ''u7'', userEmail = ''c@d.com'', status = ''ai_active'',
                 lastMessageAt = 900, chat_createdAt = 900, chat_updatedAt = 900\<rparr>],
      messages = [\<lparr>message_id = 3, chatId = 1, content = ''Hi there'', senderType = ''ai'',
                    senderName = ''K'artz Assistant'', senderUid = None,
                    createdAt = 1900, updatedAt = 1900\<rparr>,
                  \<lparr>message_id = 8, chatId = 7, content = ''Price?'', senderType = ''user'',
                    senderName = ''Bob'', senderUid = Some ''u7'',
                    createdAt = 905, updatedAt = 905\<rparr>,
                  \<lparr>message_id = 2, chatId = 1, content = ''Hello'', senderType = ''user'',
                    senderName = ''Client'', senderUid = Some ''u1'',
                    createdAt = 1005, updatedAt = 1005\<rparr>]\<rparr>"

definition skewed_history_u1 :: "wire list" where
  "skewed_history_u1 =
     [\<lparr>wire_id = objectId_toString 2, wire_content = ''Hello'', wire_senderType = ''user'',
        wire_senderName = ''Client'', timestamp = 1005\<rparr>,
      \<lparr>wire_id = objectId_toString 3, wire_content = ''Hi there'', wire_senderType = ''ai'',
        wire_senderName = ''K'artz Assistant'', timestamp = 1900\<rparr>]"

text \<open>Two handlers on the same first message of \<open>u1\<close>, and the chat the first one creates.\<close>

definition racing :: "stage \<Rightarrow> handler" where
  "racing st = \<lparr>h_env = env_ok, h_data = hello, h_stage = st\<rparr>"

definition hello_chat :: chat where
  "hello_chat = \<lparr>chat_id = 1, userId = ''u1'', userEmail = ''a@b.com'', status = ''ai_active'',
                  lastMessageAt = 1000, chat_createdAt = 1000, chat_updatedAt = 1000\<rparr>"

section \<open>The outcomes of a run\<close>

text \<open>
  The documents a run writes, as the handler builds them: the chat created for a new
  user, the chat of a known user with its activity time moved, the user message with
  the sender name \<open>name\<close> handed to \<open>Message.create\<close>, and the assistant message.
\<close>

definition created_chat :: "env \<Rightarrow> payload \<Rightarrow> chat" where
  "created_chat env d =
     \<lparr>chat_id = new_oid env CreateChat,
      userId = cast_string (data_uid d),
      userEmail = cast_string (data_email d),
      status = ''ai_active'',
      lastMessageAt = clock env DefaultLastMessageAt,
      chat_createdAt = clock env (Stamp CreateChat),
      chat_updatedAt = clock env (Stamp CreateChat)\<rparr>"

definition touched_chat :: "env \<Rightarrow> chat \<Rightarrow> chat" where
  "touched_chat env c =
     c\<lparr>lastMessageAt := clock env TouchChat, chat_updatedAt := clock env (Stamp SaveChat)\<rparr>"

definition user_message :: "env \<Rightarrow> string option \<Rightarrow> payload \<Rightarrow> chat \<Rightarrow> message" where
  "user_message env name d chat =
     \<lparr>message_id = new_oid env WriteUserMessage,
      chatId = chat_id chat,
      content = cast_string (data_content d),
      senderType = ''user'',
      senderName = cast_string name,
      senderUid = data_uid d,
      createdAt = clock env (Stamp WriteUserMessage),
      updatedAt = clock env (Stamp WriteUserMessage)\<rparr>"

definition assistant_message :: "string \<Rightarrow> env \<Rightarrow> payload \<Rightarrow> chat \<Rightarrow> message" where
  "assistant_message P env d chat =
     \<lparr>message_id = new_oid env WriteAssistantMessage,
      chatId = chat_id chat,
      content = generated env (fullPrompt P d),
      senderType = ''ai'',
      senderName = ''K'artz Assistant'',
      senderUid = None,
      createdAt = clock env (Stamp WriteAssistantMessage),
      updatedAt = clock env (Stamp WriteAssistantMessage)\<rparr>"

text \<open>
  The two \<open>try\<close> blocks are one pipeline, run with the sender name each of them hands to
  \<open>Message.create\<close> (lemmas \<open>try_block_exchange\<close> and \<open>try_block2_exchange\<close>).
\<close>

definition exchange :: "string option \<Rightarrow> string \<Rightarrow> env \<Rightarrow> payload \<Rightarrow> run \<Rightarrow> (error + unit) \<times> run" where
  "exchange name P env d r =
     (case find_or_create_chat env d r of
        (Inl e, r1) \<Rightarrow> (Inl e, r1)
      | (Inr chat, r1) \<Rightarrow>
     (case await WriteUserMessage
             (Message_create env WriteUserMessage
                \<lparr>nm_chatId = chat_id chat, nm_content = data_content d,
                 nm_senderType = Some ''user'', nm_senderName = name,
                 nm_senderUid = data_uid d\<rparr>) r1 of
        (Inl e, r2) \<Rightarrow> (Inl e, r2)
      | (Inr userMessageDoc, r2) \<Rightarrow>
     (case await Generate (generateContent env (fullPrompt P d)) r2 of
        (Inl e, r3) \<Rightarrow> (Inl e, r3)
      | (Inr aiText, r3) \<Rightarrow>
     (case await WriteAssistantMessage
             (Message_create env WriteAssistantMessage
                \<lparr>nm_chatId = chat_id chat, nm_content = Some aiText,
                 nm_senderType = Some ''ai'', nm_senderName = Some ''K'artz Assistant'',
                 nm_senderUid = None\<rparr>) r3 of
        (Inl e, r4) \<Rightarrow> (Inl e, r4)
      | (Inr aiMessageDoc, r4) \<Rightarrow>
          (Inr (), socket_emit EmitReply (formatted aiMessageDoc) r4)))))"

text \<open>
  \<open>thread_resolved env d s chat s1 T\<close>: from the store \<open>s\<close>, the thread step succeeds with
  the chat \<open>chat\<close>, the store \<open>s1\<close> and the trace \<open>T\<close>.
\<close>

definition thread_resolved :: "env \<Rightarrow> payload \<Rightarrow> store \<Rightarrow> chat \<Rightarrow> store \<Rightarrow> event list \<Rightarrow> bool" where
  "thread_resolved env d s chat s1 T =
     (case find (\<lambda>c. Some (userId c) = data_uid d) (chats s) of
        None \<Rightarrow>
          cast_string (data_uid d) \<notin> set (map userId (chats s)) \<and>
          new_oid env CreateChat \<notin> set (map chat_id (chats s)) \<and>
          chat = created_chat env d \<and>
          s1 = s\<lparr>chats := chats s @ [chat]\<rparr> \<and>
          T = [Began FindChat, Completed FindChat, Began CreateChat, Completed CreateChat]
      | Some old \<Rightarrow>
          chat = touched_chat env old \<and>
          s1 = s\<lparr>chats := map (\<lambda>x. if chat_id x = chat_id old then chat else x) (chats s)\<rparr> \<and>
          T = [Began FindChat, Completed FindChat, Began SaveChat, Completed SaveChat])"

text \<open>
  \<open>thread_failure d s T\<close>: from the store \<open>s\<close>, the thread step fails with the trace \<open>T\<close>:
  the lookup fails, or the creation of the chat of a new user, or the update of the chat
  of a known one.
\<close>

definition thread_failure :: "payload \<Rightarrow> store \<Rightarrow> event list \<Rightarrow> bool" where
  "thread_failure d s T =
     (T = [Began FindChat, Failed FindChat] \<or>
      (case find (\<lambda>c. Some (userId c) = data_uid d) (chats s) of
         None \<Rightarrow> T = [Began FindChat, Completed FindChat, Began CreateChat, Failed CreateChat]
       | Some old \<Rightarrow> T = [Began FindChat, Completed FindChat, Began SaveChat, Failed SaveChat]))"

section \<open>Symbolic execution of the handlers\<close>

lemma await_Inl:
  "f (db r) = Inl e \<Longrightarrow> await c f r = (Inl e, r\<lparr>trace := trace r @ [Began c, Failed c]\<rparr>)"
  by (simp add: await_def log_def)

lemma await_Inr:
  "f (db r) = Inr (v, s') \<Longrightarrow>
   await c f r = (Inr v, r\<lparr>db := s', trace := trace r @ [Began c, Completed c]\<rparr>)"
  by (simp add: await_def log_def)

lemma cast_string_Some: "cast_string (Some x) = x"
  by (simp add: cast_string_def)

lemma try_block_exchange:
  "try_block P env d r = exchange (js_or (data_senderName d) ''Client'') P env d r"
  by (simp add: try_block_def exchange_def)

lemma try_block2_exchange: "try_block2 P env d r = exchange (data_senderName d) P env d r"
  by (simp add: try_block2_def exchange_def)

lemma find_or_create_chat_cases [case_names find_failed create_failed save_failed created touched]:
  obtains
    e where "find_or_create_chat env d r =
               (Inl e, r\<lparr>trace := trace r @ [Began FindChat, Failed FindChat]\<rparr>)"
  | e where "find (\<lambda>c. Some (userId c) = data_uid d) (chats (db r)) = None"
      "find_or_create_chat env d r =
         (Inl e, r\<lparr>trace := trace r @ [Began FindChat, Completed FindChat,
                                         Began CreateChat, Failed CreateChat]\<rparr>)"
  | e old where "find (\<lambda>c. Some (userId c) = data_uid d) (chats (db r)) = Some old"
      "find_or_create_chat env d r =
         (Inl e, r\<lparr>trace := trace r @ [Began FindChat, Completed FindChat,
                                         Began SaveChat, Failed SaveChat]\<rparr>)"
  | "find (\<lambda>c. Some (userId c) = data_uid d) (chats (db r)) = None"
      "cast_string (data_uid d) \<notin> set (map userId (chats (db r)))"
      "new_oid env CreateChat \<notin> set (map chat_id (chats (db r)))"
      "find_or_create_chat env d r =
         (Inr (created_chat env d),
          r\<lparr>db := (db r)\<lparr>chats := chats (db r) @ [created_chat env d]\<rparr>,
            trace := trace r @ [Began FindChat, Completed FindChat,
                                Began CreateChat, Completed CreateChat]\<rparr>)"
  | old where "find (\<lambda>c. Some (userId c) = data_uid d) (chats (db r)) = Some old"
      "find_or_create_chat env d r =
         (Inr (touched_chat env old),
          r\<lparr>db := (db r)\<lparr>chats := map (\<lambda>x. if chat_id x = chat_id old then touched_chat env old else x)
                                       (chats (db r))\<rparr>,
            trace := trace r @ [Began FindChat, Completed FindChat,
                                Began SaveChat, Completed SaveChat]\<rparr>)"
proof (cases "fault env FindChat")
  case True
  then have "find_or_create_chat env d r =
               (Inl StoreFault, r\<lparr>trace := trace r @ [Began FindChat, Failed FindChat]\<rparr>)"
    by (simp add: find_or_create_chat_def await_Inl Chat_findOne_def)
  then show ?thesis using that(1) by blast
next
  case nofault: False
  let ?found = "find (\<lambda>c. Some (userId c) = data_uid d) (chats (db r))"
  let ?r1 = "r\<lparr>trace := trace r @ [Began FindChat, Completed FindChat]\<rparr>"
  have found: "await FindChat (Chat_findOne env (data_uid d)) r = (Inr ?found, ?r1)"
    using nofault by (simp add: await_def log_def Chat_findOne_def)
  show ?thesis
  proof (cases ?found)
    case None
    let ?n = "\<lparr>nc_userId = data_uid d, nc_userEmail = data_email d, nc_status = Some ''ai_active''\<rparr>"
    have eq: "find_or_create_chat env d r = await CreateChat (Chat_create env ?n) ?r1"
      by (simp add: find_or_create_chat_def found None)
    show ?thesis
    proof (cases "Chat_create env ?n (db r)")
      case (Inl e)
      then have "find_or_create_chat env d r =
         (Inl e, r\<lparr>trace := trace r @ [Began FindChat, Completed FindChat,
                                         Began CreateChat, Failed CreateChat]\<rparr>)"
        by (simp add: eq await_Inl)
      then show ?thesis using that(2) None by blast
    next
      case (Inr p)
      then have ok: "cast_string (data_uid d) \<notin> set (map userId (chats (db r)))"
        "new_oid env CreateChat \<notin> set (map chat_id (chats (db r)))"
        and p: "p = (created_chat env d, (db r)\<lparr>chats := chats (db r) @ [created_chat env d]\<rparr>)"
        by (auto simp: Chat_create_def created_chat_def Let_def split: if_splits)
      have "find_or_create_chat env d r =
         (Inr (created_chat env d),
          r\<lparr>db := (db r)\<lparr>chats := chats (db r) @ [created_chat env d]\<rparr>,
            trace := trace r @ [Began FindChat, Completed FindChat,
                                Began CreateChat, Completed CreateChat]\<rparr>)"
        using Inr by (simp add: eq p await_Inr)
      then show ?thesis using that(4) None ok by blast
    qed
  next
    case (Some old)
    have eq: "find_or_create_chat env d r =
                await SaveChat (chat_save env (old\<lparr>lastMessageAt := clock env TouchChat\<rparr>)) ?r1"
      by (simp add: find_or_create_chat_def found Some)
    show ?thesis
    proof (cases "fault env SaveChat")
      case True
      then have "find_or_create_chat env d r =
         (Inl StoreFault, r\<lparr>trace := trace r @ [Began FindChat, Completed FindChat,
                                         Began SaveChat, Failed SaveChat]\<rparr>)"
        by (simp add: eq await_Inl chat_save_def)
      then show ?thesis using that(3) Some by blast
    next
      case False
      then have "find_or_create_chat env d r =
         (Inr (touched_chat env old),
          r\<lparr>db := (db r)\<lparr>chats := map (\<lambda>x. if chat_id x = chat_id old then touched_chat env old else x)
                                       (chats (db r))\<rparr>,
            trace := trace r @ [Began FindChat, Completed FindChat,
                                Began SaveChat, Completed SaveChat]\<rparr>)"
        by (simp add: eq await_def log_def chat_save_def touched_chat_def Let_def)
      then show ?thesis using that(5) Some by blast
    qed
  qed
qed

lemma Message_create_Inr:
  assumes "Message_create env c n s = Inr p"
  shows "p = (\<lparr>message_id = new_oid env c, chatId = nm_chatId n,
               content = cast_string (nm_content n), senderType = cast_string (nm_senderType n),
               senderName = cast_string (nm_senderName n), senderUid = nm_senderUid n,
               createdAt = clock env (Stamp c), updatedAt = clock env (Stamp c)\<rparr>,
              s\<lparr>messages := messages s @
                 [\<lparr>message_id = new_oid env c, chatId = nm_chatId n,
                   content = cast_string (nm_content n), senderType = cast_string (nm_senderType n),
                   senderName = cast_string (nm_senderName n), senderUid = nm_senderUid n,
                   createdAt = clock env (Stamp c), updatedAt = clock env (Stamp c)\<rparr>]\<rparr>)"
    and "MessageSchema_valid n" and "\<not> fault env c"
    and "new_oid env c \<notin> set (map message_id (messages s))"
  using assms by (auto simp: Message_create_def Let_def split: if_splits)

lemma exchange_tail_cases
  [consumes 1, case_names user_write_failed generation_failed assistant_write_failed replied]:
  assumes chat: "find_or_create_chat env d r = (Inr chat, r1)"
  obtains
    e where "exchange name P env d r =
       (Inl e, r1\<lparr>trace := trace r1 @ [Began WriteUserMessage, Failed WriteUserMessage]\<rparr>)"
  | e where "fault env Generate" "\<not> falsy name"
      "exchange name P env d r =
       (Inl e, r1\<lparr>db := (db r1)\<lparr>messages := messages (db r1) @ [user_message env name d chat]\<rparr>,
                  trace := trace r1 @ [Began WriteUserMessage, Completed WriteUserMessage,
                                       Began Generate, Failed Generate]\<rparr>)"
  | e where "\<not> fault env Generate" "\<not> falsy name"
      "exchange name P env d r =
       (Inl e, r1\<lparr>db := (db r1)\<lparr>messages := messages (db r1) @ [user_message env name d chat]\<rparr>,
                  trace := trace r1 @ [Began WriteUserMessage, Completed WriteUserMessage,
                                       Began Generate, Completed Generate,
                                       Began WriteAssistantMessage, Failed WriteAssistantMessage]\<rparr>)"
  | "\<not> fault env Generate" "\<not> falsy name" "generated env (fullPrompt P d) \<noteq> []"
      "exchange name P env d r =
       (Inr (), r1\<lparr>db := (db r1)\<lparr>messages := messages (db r1) @
                         [user_message env name d chat, assistant_message P env d chat]\<rparr>,
                   outbox := outbox r1 @ [formatted (assistant_message P env d chat)],
                   trace := trace r1 @ [Began WriteUserMessage, Completed WriteUserMessage,
                                        Began Generate, Completed Generate,
                                        Began WriteAssistantMessage, Completed WriteAssistantMessage,
                                        EmitReply]\<rparr>)"
proof -
  let ?nu = "\<lparr>nm_chatId = chat_id chat, nm_content = data_content d,
              nm_senderType = Some ''user'', nm_senderName = name,
              nm_senderUid = data_uid d\<rparr>"
  let ?na = "\<lparr>nm_chatId = chat_id chat, nm_content = Some (generated env (fullPrompt P d)),
              nm_senderType = Some ''ai'', nm_senderName = Some ''K'artz Assistant'',
              nm_senderUid = None\<rparr>"
  show ?thesis
  proof (cases "Message_create env WriteUserMessage ?nu (db r1)")
    case (Inl e)
    then have "exchange name P env d r =
       (Inl e, r1\<lparr>trace := trace r1 @ [Began WriteUserMessage, Failed WriteUserMessage]\<rparr>)"
      by (simp add: exchange_def chat await_Inl)
    then show ?thesis using that(1) by blast
  next
    case (Inr p)
    let ?s2 = "(db r1)\<lparr>messages := messages (db r1) @ [user_message env name d chat]\<rparr>"
    let ?r2 = "r1\<lparr>db := ?s2, trace := trace r1 @ [Began WriteUserMessage, Completed WriteUserMessage]\<rparr>"
    have p: "p = (user_message env name d chat, ?s2)"
      using Message_create_Inr(1)[OF Inr] by (simp add: user_message_def cast_string_Some)
    have named: "\<not> falsy name"
      using Message_create_Inr(2)[OF Inr] by (simp add: MessageSchema_valid_def required_def)
    have wu: "await WriteUserMessage (Message_create env WriteUserMessage ?nu) r1
                = (Inr (user_message env name d chat), ?r2)"
      using Inr by (simp add: p await_Inr)
    show ?thesis
    proof (cases "fault env Generate")
      case True
      then have "exchange name P env d r =
         (Inl GenerationFailure, r1\<lparr>db := ?s2,
                  trace := trace r1 @ [Began WriteUserMessage, Completed WriteUserMessage,
                                       Began Generate, Failed Generate]\<rparr>)"
        by (simp add: exchange_def chat wu await_Inl generateContent_def)
      then show ?thesis using that(2) True named by blast
    next
      case gen: False
      let ?r3 = "r1\<lparr>db := ?s2, trace := trace r1 @ [Began WriteUserMessage, Completed WriteUserMessage,
                                       Began Generate, Completed Generate]\<rparr>"
      have g: "await Generate (generateContent env (fullPrompt P d)) ?r2
                 = (Inr (generated env (fullPrompt P d)), ?r3)"
        using gen by (simp add: await_def log_def generateContent_def)
      show ?thesis
      proof (cases "Message_create env WriteAssistantMessage ?na ?s2")
        case (Inl e)
        then have "exchange name P env d r =
          (Inl e, r1\<lparr>db := ?s2,
                  trace := trace r1 @ [Began WriteUserMessage, Completed WriteUserMessage,
                                       Began Generate, Completed Generate,
                                       Began WriteAssistantMessage, Failed WriteAssistantMessage]\<rparr>)"
          by (simp add: exchange_def chat wu g await_Inl)
        then show ?thesis using that(3) gen named by blast
      next
        case (Inr q)
        have q: "q = (assistant_message P env d chat,
                      ?s2\<lparr>messages := messages ?s2 @ [assistant_message P env d chat]\<rparr>)"
          using Message_create_Inr(1)[OF Inr] by (simp add: assistant_message_def cast_string_Some)
        have nonempty: "generated env (fullPrompt P d) \<noteq> []"
          using Message_create_Inr(2)[OF Inr]
          by (simp add: MessageSchema_valid_def required_def falsy_def)
        have "exchange name P env d r =
          (Inr (), r1\<lparr>db := (db r1)\<lparr>messages := messages (db r1) @
                         [user_message env name d chat, assistant_message P env d chat]\<rparr>,
                   outbox := outbox r1 @ [formatted (assistant_message P env d chat)],
                   trace := trace r1 @ [Began WriteUserMessage, Completed WriteUserMessage,
                                        Began Generate, Completed Generate,
                                        Began WriteAssistantMessage, Completed WriteAssistantMessage,
                                        EmitReply]\<rparr>)"
          using Inr by (simp add: exchange_def chat wu g q await_Inr socket_emit_def log_def)
        then show ?thesis using that(4) gen named nonempty by blast
      qed
    qed
  qed
qed

lemma exchange_cases
  [case_names no_thread user_write_failed generation_failed assistant_write_failed replied]:
  obtains
    e T where "thread_failure d s T"
      "exchange name P env d \<lparr>db = s, outbox = [], trace = []\<rparr> =
         (Inl e, \<lparr>db = s, outbox = [], trace = T\<rparr>)"
  | e chat s1 T where "thread_resolved env d s chat s1 T"
      "exchange name P env d \<lparr>db = s, outbox = [], trace = []\<rparr> =
         (Inl e, \<lparr>db = s1, outbox = [],
                  trace = T @ [Began WriteUserMessage, Failed WriteUserMessage]\<rparr>)"
  | e chat s1 T where "thread_resolved env d s chat s1 T" "fault env Generate" "\<not> falsy name"
      "exchange name P env d \<lparr>db = s, outbox = [], trace = []\<rparr> =
         (Inl e, \<lparr>db = s1\<lparr>messages := messages s @ [user_message env name d chat]\<rparr>,
                  outbox = [],
                  trace = T @ [Began WriteUserMessage, Completed WriteUserMessage,
                               Began Generate, Failed Generate]\<rparr>)"
  | e chat s1 T where "thread_resolved env d s chat s1 T" "\<not> fault env Generate" "\<not> falsy name"
      "exchange name P env d \<lparr>db = s, outbox = [], trace = []\<rparr> =
         (Inl e, \<lparr>db = s1\<lparr>messages := messages s @ [user_message env name d chat]\<rparr>,
                  outbox = [],
                  trace = T @ [Began WriteUserMessage, Completed WriteUserMessage,
                               Began Generate, Completed Generate,
                               Began WriteAssistantMessage, Failed WriteAssistantMessage]\<rparr>)"
  | chat s1 T where "thread_resolved env d s chat s1 T" "\<not> fault env Generate" "\<not> falsy name"
      "generated env (fullPrompt P d) \<noteq> []"
      "exchange name P env d \<lparr>db = s, outbox = [], trace = []\<rparr> =
         (Inr (), \<lparr>db = s1\<lparr>messages := messages s @
                           [user_message env name d chat, assistant_message P env d chat]\<rparr>,
                   outbox = [formatted (assistant_message P env d chat)],
                   trace = T @ [Began WriteUserMessage, Completed WriteUserMessage,
                                Began Generate, Completed Generate,
                                Began WriteAssistantMessage, Completed WriteAssistantMessage,
                                EmitReply]\<rparr>)"
proof -
  note outcome = that
  let ?r = "\<lparr>db = s, outbox = [], trace = []\<rparr>"
  have failed: thesis
    if "find_or_create_chat env d ?r = (Inl e, ?r\<lparr>trace := trace ?r @ T\<rparr>)"
      and "thread_failure d s T" for e T
    using that outcome(1)[of T e] by (simp add: exchange_def)
  have resolved: thesis
    if chat: "find_or_create_chat env d ?r = (Inr chat, ?r\<lparr>db := sa, trace := T\<rparr>)"
      and tr: "thread_resolved env d s chat sa T" for chat sa T
  proof -
    have ms: "messages sa = messages s"
      using tr by (auto simp: thread_resolved_def split: option.splits)
    from chat show thesis
    proof (cases rule: exchange_tail_cases[where P = P and name = name])
      case (user_write_failed e)
      then show ?thesis using outcome(2)[OF tr, of e] by simp
    next
      case (generation_failed e)
      then show ?thesis using outcome(3)[OF tr, of e] by (simp add: ms)
    next
      case (assistant_write_failed e)
      then show ?thesis using outcome(4)[OF tr, of e] by (simp add: ms)
    next
      case replied
      then show ?thesis using outcome(5)[OF tr] by (simp add: ms)
    qed
  qed
  show thesis
  proof (cases env d ?r rule: find_or_create_chat_cases)
    case (find_failed e)
    then show ?thesis
      using failed[of e "[Began FindChat, Failed FindChat]"] by (simp add: thread_failure_def)
  next
    case (create_failed e)
    then show ?thesis
      using failed[of e "[Began FindChat, Completed FindChat, Began CreateChat, Failed CreateChat]"]
      by (simp add: thread_failure_def)
  next
    case (save_failed e old)
    then show ?thesis
      using failed[of e "[Began FindChat, Completed FindChat, Began SaveChat, Failed SaveChat]"]
      by (simp add: thread_failure_def)
  next
    case created
    then show ?thesis
      using resolved[where chat = "created_chat env d"
          and sa = "s\<lparr>chats := chats s @ [created_chat env d]\<rparr>"
          and T = "[Began FindChat, Completed FindChat, Began CreateChat, Completed CreateChat]"]
      by (simp add: thread_resolved_def)
  next
    case (touched old)
    then show ?thesis
      using resolved[where chat = "touched_chat env old"
          and sa = "s\<lparr>chats := map (\<lambda>x. if chat_id x = chat_id old then touched_chat env old else x) (chats s)\<rparr>"
          and T = "[Began FindChat, Completed FindChat, Began SaveChat, Completed SaveChat]"]
      by (simp add: thread_resolved_def)
  qed
qed

text \<open>
  The outcomes of the first handler on an event that passes the test of line 154: the
  thread step fails; the user message is refused; the generator fails; the assistant
  message is refused; or the reply is sent.
\<close>

lemma send_message_cases
  [consumes 1, case_names no_thread user_write_failed generation_failed assistant_write_failed replied]:
  assumes valid: "\<not> missing_data d"
  obtains
    T where "thread_failure d s T"
      "send_message P env (Some d) s =
         (Resolved, \<lparr>db = s, outbox = [fallback_reply env], trace = T @ [EmitFallback]\<rparr>)"
  | chat s1 T where "thread_resolved env d s chat s1 T"
      "send_message P env (Some d) s =
         (Resolved, \<lparr>db = s1, outbox = [fallback_reply env],
                     trace = T @ [Began WriteUserMessage, Failed WriteUserMessage, EmitFallback]\<rparr>)"
  | chat s1 T where "thread_resolved env d s chat s1 T" "fault env Generate"
      "send_message P env (Some d) s =
         (Resolved, \<lparr>db = s1\<lparr>messages := messages s @
                              [user_message env (js_or (data_senderName d) ''Client'') d chat]\<rparr>,
                     outbox = [fallback_reply env],
                     trace = T @ [Began WriteUserMessage, Completed WriteUserMessage,
                                  Began Generate, Failed Generate, EmitFallback]\<rparr>)"
  | chat s1 T where "thread_resolved env d s chat s1 T" "\<not> fault env Generate"
      "send_message P env (Some d) s =
         (Resolved, \<lparr>db = s1\<lparr>messages := messages s @
                              [user_message env (js_or (data_senderName d) ''Client'') d chat]\<rparr>,
                     outbox = [fallback_reply env],
                     trace = T @ [Began WriteUserMessage, Completed WriteUserMessage,
                                  Began Generate, Completed Generate,
                                  Began WriteAssistantMessage, Failed WriteAssistantMessage,
                                  EmitFallback]\<rparr>)"
  | chat s1 T where "thread_resolved env d s chat s1 T" "\<not> fault env Generate"
      "generated env (fullPrompt P d) \<noteq> []"
      "send_message P env (Some d) s =
         (Resolved, \<lparr>db = s1\<lparr>messages := messages s @
                              [user_message env (js_or (data_senderName d) ''Client'') d chat,
                               assistant_message P env d chat]\<rparr>,
                     outbox = [formatted (assistant_message P env d chat)],
                     trace = T @ [Began WriteUserMessage, Completed WriteUserMessage,
                                  Began Generate, Completed Generate,
                                  Began WriteAssistantMessage, Completed WriteAssistantMessage,
                                  EmitReply]\<rparr>)"
proof -
  note outcome = that
  have sm: "send_message P env (Some d) s =
              (case exchange (js_or (data_senderName d) ''Client'') P env d
                      \<lparr>db = s, outbox = [], trace = []\<rparr> of
                 (Inr u, r') \<Rightarrow> (Resolved, r')
               | (Inl e, r') \<Rightarrow> (Resolved, catch_block env r'))"
    using valid by (simp add: send_message_def try_block_exchange)
  show thesis
  proof (cases "js_or (data_senderName d) ''Client''" P env d s rule: exchange_cases)
    case (no_thread e T)
    then show ?thesis
      using outcome(1)[of T] by (simp add: sm catch_block_def socket_emit_def log_def)
  next
    case (user_write_failed e chat s1 T)
    then show ?thesis
      using outcome(2)[of chat s1 T] by (simp add: sm catch_block_def socket_emit_def log_def)
  next
    case (generation_failed e chat s1 T)
    then show ?thesis
      using outcome(3)[of chat s1 T] by (simp add: sm catch_block_def socket_emit_def log_def)
  next
    case (assistant_write_failed e chat s1 T)
    then show ?thesis
      using outcome(4)[of chat s1 T] by (simp add: sm catch_block_def socket_emit_def log_def)
  next
    case (replied chat s1 T)
    then show ?thesis
      using outcome(5)[of chat s1 T] by (simp add: sm)
  qed
qed

text \<open>The outcomes of the second handler: the same steps, and nothing sent on a failure.\<close>

lemma send_message2_cases
  [consumes 1, case_names no_thread user_write_failed generation_failed assistant_write_failed replied]:
  assumes valid: "\<not> missing_data d"
  obtains
    T where "thread_failure d s T"
      "send_message2 P env (Some d) s = (Resolved, \<lparr>db = s, outbox = [], trace = T\<rparr>)"
  | chat s1 T where "thread_resolved env d s chat s1 T"
      "send_message2 P env (Some d) s =
         (Resolved, \<lparr>db = s1, outbox = [],
                     trace = T @ [Began WriteUserMessage, Failed WriteUserMessage]\<rparr>)"
  | chat s1 T where "thread_resolved env d s chat s1 T" "fault env Generate"
      "\<not> falsy (data_senderName d)"
      "send_message2 P env (Some d) s =
         (Resolved, \<lparr>db = s1\<lparr>messages := messages s @
                              [user_message env (data_senderName d) d chat]\<rparr>,
                     outbox = [],
                     trace = T @ [Began WriteUserMessage, Completed WriteUserMessage,
                                  Began Generate, Failed Generate]\<rparr>)"
  | chat s1 T where "thread_resolved env d s chat s1 T" "\<not> fault env Generate"
      "\<not> falsy (data_senderName d)"
      "send_message2 P env (Some d) s =
         (Resolved, \<lparr>db = s1\<lparr>messages := messages s @
                              [user_message env (data_senderName d) d chat]\<rparr>,
                     outbox = [],
                     trace = T @ [Began WriteUserMessage, Completed WriteUserMessage,
                                  Began Generate, Completed Generate,
                                  Began WriteAssistantMessage, Failed WriteAssistantMessage]\<rparr>)"
  | chat s1 T where "thread_resolved env d s chat s1 T" "\<not> fault env Generate"
      "\<not> falsy (data_senderName d)" "generated env (fullPrompt P d) \<noteq> []"
      "send_message2 P env (Some d) s =
         (Resolved, \<lparr>db = s1\<lparr>messages := messages s @
                              [user_message env (data_senderName d) d chat,
                               assistant_message P env d chat]\<rparr>,
                     outbox = [formatted (assistant_message P env d chat)],
                     trace = T @ [Began WriteUserMessage, Completed WriteUserMessage,
                                  Began Generate, Completed Generate,
                                  Began WriteAssistantMessage, Completed WriteAssistantMessage,
                                  EmitReply]\<rparr>)"
proof -
  note outcome = that
  have sm: "send_message2 P env (Some d) s =
              (case exchange (data_senderName d) P env d \<lparr>db = s, outbox = [], trace = []\<rparr> of
                 (Inr u, r') \<Rightarrow> (Resolved, r')
               | (Inl e, r') \<Rightarrow> (Resolved, r'))"
    using valid by (simp add: send_message2_def try_block2_exchange)
  show thesis
  proof (cases "data_senderName d" P env d s rule: exchange_cases)
    case (no_thread e T)
    then show ?thesis using outcome(1)[of T] by (simp add: sm)
  next
    case (user_write_failed e chat s1 T)
    then show ?thesis using outcome(2)[of chat s1 T] by (simp add: sm)
  next
    case (generation_failed e chat s1 T)
    then show ?thesis using outcome(3)[of chat s1 T] by (simp add: sm)
  next
    case (assistant_write_failed e chat s1 T)
    then show ?thesis using outcome(4)[of chat s1 T] by (simp add: sm)
  next
    case (replied chat s1 T)
    then show ?thesis using outcome(5)[of chat s1 T] by (simp add: sm)
  qed
qed

section \<open>Dropping malformed events\<close>

text \<open>With no payload at all, \<open>data.uid\<close> throws before the \<open>try\<close>: the promise is rejected.\<close>

lemma absent_payload_rejected:
  "send_message P env None s = (Rejected TypeError, \<lparr>db = s, outbox = [], trace = []\<rparr>)"
  "send_message2 P env None s = (Rejected TypeError, \<lparr>db = s, outbox = [], trace = []\<rparr>)"
  by (simp_all add: send_message_def send_message2_def)

text \<open>
  C3. An event whose payload is absent, or whose \<open>uid\<close>, \<open>email\<close> or \<open>content\<close> is
  missing or empty, leaves the store as it was, runs no external call (so no store
  write) and emits nothing, in both handlers; when there is a payload the handler
  returns normally.
\<close>

theorem invalid_event_dropped:
  assumes "case data of
             None \<Rightarrow> True
           | Some d \<Rightarrow> data_uid d \<in> {None, Some []} \<or> data_email d \<in> {None, Some []}
                       \<or> data_content d \<in> {None, Some []}"
  shows "snd (send_message P env data s) = \<lparr>db = s, outbox = [], trace = []\<rparr>
       \<and> snd (send_message2 P env data s) = \<lparr>db = s, outbox = [], trace = []\<rparr>
       \<and> (data \<noteq> None \<longrightarrow> fst (send_message P env data s) = Resolved
                            \<and> fst (send_message2 P env data s) = Resolved)"
proof (cases data)
  case None
  then show ?thesis by (simp add: absent_payload_rejected)
next
  case (Some d)
  then have "missing_data d"
    using assms by (auto simp: missing_data_def falsy_def)
  then show ?thesis using Some by (simp add: send_message_def send_message2_def)
qed

theorem invalid_event_dropped_witness:
  "(data_uid (hello\<lparr>data_content := Some []\<rparr>) \<in> {None, Some []}
      \<or> data_email (hello\<lparr>data_content := Some []\<rparr>) \<in> {None, Some []}
      \<or> data_content (hello\<lparr>data_content := Some []\<rparr>) \<in> {None, Some []})
   \<and> send_message ''SYS'' env_ok (Some (hello\<lparr>data_content := Some []\<rparr>)) empty_store
       = (Resolved, \<lparr>db = empty_store, outbox = [], trace = []\<rparr>)
   \<and> send_message2 ''SYS'' env_ok (Some (hello\<lparr>data_content := Some []\<rparr>)) empty_store
       = (Resolved, \<lparr>db = empty_store, outbox = [], trace = []\<rparr>)"
proof -
  have h: "case Some (hello\<lparr>data_content := Some []\<rparr>) of
             None \<Rightarrow> True
           | Some d \<Rightarrow> data_uid d \<in> {None, Some []} \<or> data_email d \<in> {None, Some []}
                       \<or> data_content d \<in> {None, Some []}"
    by simp
  show ?thesis
    using invalid_event_dropped[OF h, of "''SYS''" env_ok empty_store]
    by (simp add: prod_eq_iff)
qed

section \<open>Runs of the scenarios\<close>

lemmas handler_defs =
  send_message_def send_message2_def try_block_def try_block2_def catch_block_def
  find_or_create_chat_def await_def log_def socket_emit_def Chat_findOne_def Chat_create_def
  chat_save_def Message_create_def generateContent_def missing_data_def falsy_def js_or_def
  required_def ChatSchema_valid_def MessageSchema_valid_def status_enum_def senderType_enum_def
  cast_string_def formatted_def Let_def

lemma hello_run:
  "send_message ''SYS'' env_ok (Some hello) empty_store =
     (Resolved,
      \<lparr>db = \<lparr>chats = [\<lparr>chat_id = 1, userId = ''u1'', userEmail = ''a@b.com'',
                        status = ''ai_active'', lastMessageAt = 1000,
                        chat_createdAt = 1000, chat_updatedAt = 1000\<rparr>],
             messages = [\<lparr>message_id = 2, chatId = 1, content = ''Hello'',
                           senderType = ''user'', senderName = ''Client'',
                           senderUid = Some ''u1'', createdAt = 1005, updatedAt = 1005\<rparr>,
                         \<lparr>message_id = 3, chatId = 1, content = ''Hi there'',
                           senderType = ''ai'', senderName = ''K'artz Assistant'',
                           senderUid = None, createdAt = 1900, updatedAt = 1900\<rparr>]\<rparr>,
       outbox = [\<lparr>wire_id = objectId_toString 3, wire_content = ''Hi there'',
                  wire_senderType = ''ai'', wire_senderName = ''K'artz Assistant'',
                  timestamp = 1900\<rparr>],
       trace = [Began FindChat, Completed FindChat, Began CreateChat, Completed CreateChat,
                Began WriteUserMessage, Completed WriteUserMessage,
                Began Generate, Completed Generate,
                Began WriteAssistantMessage, Completed WriteAssistantMessage, EmitReply]\<rparr>)"
  by (simp add: handler_defs env_ok_def hello_def empty_store_def)

lemma hello_run_generator_down:
  "send_message ''SYS'' env_generator_down (Some hello) empty_store =
     (Resolved,
      \<lparr>db = \<lparr>chats = [\<lparr>chat_id = 1, userId = ''u1'', userEmail = ''a@b.com'',
                        status = ''ai_active'', lastMessageAt = 1000,
                        chat_createdAt = 1000, chat_updatedAt = 1000\<rparr>],
             messages = [\<lparr>message_id = 2, chatId = 1, content = ''Hello'',
                           senderType = ''user'', senderName = ''Client'',
                           senderUid = Some ''u1'', createdAt = 1005, updatedAt = 1005\<rparr>]\<rparr>,
       outbox = [fallback_reply env_generator_down],
       trace = [Began FindChat, Completed FindChat, Began CreateChat, Completed CreateChat,
                Began WriteUserMessage, Completed WriteUserMessage,
                Began Generate, Failed Generate, EmitFallback]\<rparr>)"
  by (simp add: handler_defs env_generator_down_def env_ok_def hello_def empty_store_def)

section \<open>The fallback reply\<close>

lemma fallback_reply_fields:
  "wire_id (fallback_reply env) = ''temp_error_'' @ number_toString (clock env FallbackId)"
  "wire_content (fallback_reply env) =
     ''I apologize, I am having trouble processing your request right now. Please try again later.''"
  "wire_senderType (fallback_reply env) = ''ai''"
  "wire_senderName (fallback_reply env) = ''System Error''"
  "timestamp (fallback_reply env) = clock env FallbackTimestamp"
  by (simp_all add: fallback_reply_def)

text \<open>An ObjectId prints as hex digits only, so no document id starts with \<open>temp_error_\<close>.\<close>

lemma objectId_toString_hex: "set (objectId_toString w) \<subseteq> set ''0123456789abcdef''"
proof -
  have "hex_digit n \<in> set ''0123456789abcdef''" for n
    unfolding hex_digit_def by (rule nth_mem) simp
  then show ?thesis by (auto simp: objectId_toString_def)
qed

lemma temp_error_not_objectId: "''temp_error_'' @ x \<noteq> objectId_toString w"
proof
  assume "''temp_error_'' @ x = objectId_toString w"
  then have "CHR ''t'' \<in> set (objectId_toString w)"
    by (metis append_Cons list.set_intros(1))
  then show False using objectId_toString_hex[of w] by auto
qed

lemma fallback_id_not_objectId: "wire_id (fallback_reply env) \<noteq> objectId_toString oid"
  unfolding fallback_reply_fields by (rule temp_error_not_objectId)

lemma valid_content: "\<not> missing_data d \<Longrightarrow> Some (cast_string (data_content d)) = data_content d"
  by (auto simp: missing_data_def falsy_def cast_string_def split: option.splits)

section \<open>Order of the steps of one exchange\<close>

text \<open>
  C9. In the first handler, on an event that passes the test of line 154: if the
  generation call begins, the write of the user message has completed before; if the
  write of the assistant message begins, the generation call has completed before; if
  the reply of line 223 is emitted, the write of the assistant message has completed
  before. No event of the trace occurs twice.
\<close>

theorem pipeline_order:
  fixes P env d s
  defines "tr \<equiv> trace (snd (send_message P env (Some d) s))"
  assumes valid: "\<not> missing_data d"
  shows "happens_before (Completed WriteUserMessage) (Began Generate) tr
       \<and> happens_before (Completed Generate) (Began WriteAssistantMessage) tr
       \<and> happens_before (Completed WriteAssistantMessage) EmitReply tr
       \<and> distinct tr"
  using valid
proof (cases rule: send_message_cases[where P = P and env = env and s = s])
  case (no_thread T)
  then show ?thesis
    by (auto simp: tr_def happens_before_def thread_failure_def split: option.splits)
next
  case (user_write_failed chat s1 T)
  then show ?thesis
    by (auto simp: tr_def happens_before_def thread_resolved_def split: option.splits)
next
  case (generation_failed chat s1 T)
  then show ?thesis
    by (auto simp: tr_def happens_before_def thread_resolved_def split: option.splits)
next
  case (assistant_write_failed chat s1 T)
  then show ?thesis
    by (auto simp: tr_def happens_before_def thread_resolved_def split: option.splits)
next
  case (replied chat s1 T)
  then show ?thesis
    by (auto simp: tr_def happens_before_def thread_resolved_def split: option.splits)
qed

theorem pipeline_order_witness:
  "\<not> missing_data hello
   \<and> Began Generate \<in> set (trace (snd (send_message ''SYS'' env_ok (Some hello) empty_store)))
   \<and> Began WriteAssistantMessage \<in> set (trace (snd (send_message ''SYS'' env_ok (Some hello) empty_store)))
   \<and> EmitReply \<in> set (trace (snd (send_message ''SYS'' env_ok (Some hello) empty_store)))
   \<and> happens_before (Completed WriteUserMessage) (Began Generate)
        (trace (snd (send_message ''SYS'' env_ok (Some hello) empty_store)))
   \<and> happens_before (Completed Generate) (Began WriteAssistantMessage)
        (trace (snd (send_message ''SYS'' env_ok (Some hello) empty_store)))
   \<and> happens_before (Completed WriteAssistantMessage) EmitReply
        (trace (snd (send_message ''SYS'' env_ok (Some hello) empty_store)))"
proof -
  have h: "\<not> missing_data hello"
    by (simp add: missing_data_def falsy_def hello_def)
  show ?thesis
    using h pipeline_order[OF h, of "''SYS''" env_ok empty_store] by (simp add: hello_run)
qed

section \<open>A generation failure after the user message was stored\<close>

text \<open>
  C2. In the first handler, when the write of the user message completed and the
  generation call failed: the store holds, beyond the messages it held before, exactly
  the user message (sender type \<open>user\<close>, the content and the uid of the event), so no
  assistant message; and the one event emitted has the id \<open>temp_error_\<close> followed by the
  clock reading, which is the id of no document, the fixed apology as content, and the
  clock reading of \<open>new Date()\<close> as timestamp.
\<close>

theorem generation_failure_leaves_user_message_only:
  fixes P env d s
  defines "r \<equiv> snd (send_message P env (Some d) s)"
  assumes user_written: "Completed WriteUserMessage \<in> set (trace r)"
      and generation_failed: "Failed Generate \<in> set (trace r)"
  shows "\<exists>m w. messages (db r) = messages s @ [m]
            \<and> senderType m = ''user'' \<and> Some (content m) = data_content d
            \<and> senderUid m = data_uid d
            \<and> outbox r = [w]
            \<and> wire_id w = ''temp_error_'' @ number_toString (clock env FallbackId)
            \<and> (\<forall>oid. wire_id w \<noteq> objectId_toString oid)
            \<and> wire_content w =
                 ''I apologize, I am having trouble processing your request right now. Please try again later.''
            \<and> wire_senderType w = ''ai''
            \<and> wire_senderName w = ''System Error''
            \<and> timestamp w = clock env FallbackTimestamp"
proof (cases "missing_data d")
  case True
  then show ?thesis using user_written by (simp add: r_def send_message_def)
next
  case False
  then show ?thesis
  proof (cases rule: send_message_cases[where P = P and env = env and s = s])
    case (no_thread T)
    then show ?thesis using user_written
      by (auto simp: r_def thread_failure_def split: option.splits)
  next
    case (user_write_failed chat s1 T)
    then show ?thesis using user_written
      by (auto simp: r_def thread_resolved_def split: option.splits)
  next
    case (generation_failed chat s1 T)
    let ?m = "user_message env (js_or (data_senderName d) ''Client'') d chat"
    have "messages (db r) = messages s @ [?m]" and "outbox r = [fallback_reply env]"
      using generation_failed by (simp_all add: r_def)
    moreover have "senderType ?m = ''user''" and "Some (content ?m) = data_content d"
      and "senderUid ?m = data_uid d"
      using False by (simp_all add: user_message_def valid_content)
    ultimately show ?thesis
      using fallback_reply_fields[of env] fallback_id_not_objectId[of env] by blast
  next
    case (assistant_write_failed chat s1 T)
    then show ?thesis using assms(3)
      by (auto simp: r_def thread_resolved_def split: option.splits)
  next
    case (replied chat s1 T)
    then show ?thesis using assms(3)
      by (auto simp: r_def thread_resolved_def split: option.splits)
  qed
qed

theorem generation_failure_leaves_user_message_only_witness:
  "Completed WriteUserMessage \<in> set (trace (snd (send_message ''SYS'' env_generator_down (Some hello) empty_store)))
   \<and> Failed Generate \<in> set (trace (snd (send_message ''SYS'' env_generator_down (Some hello) empty_store)))
   \<and> (\<exists>m w. messages (db (snd (send_message ''SYS'' env_generator_down (Some hello) empty_store)))
                = messages empty_store @ [m]
            \<and> senderType m = ''user'' \<and> Some (content m) = data_content hello
            \<and> senderUid m = data_uid hello
            \<and> outbox (snd (send_message ''SYS'' env_generator_down (Some hello) empty_store)) = [w]
            \<and> wire_id w = ''temp_error_'' @ number_toString (clock env_generator_down FallbackId)
            \<and> (\<forall>oid. wire_id w \<noteq> objectId_toString oid)
            \<and> wire_content w =
                 ''I apologize, I am having trouble processing your request right now. Please try again later.''
            \<and> wire_senderType w = ''ai''
            \<and> wire_senderName w = ''System Error''
            \<and> timestamp w = clock env_generator_down FallbackTimestamp)"
proof -
  have h1: "Completed WriteUserMessage
              \<in> set (trace (snd (send_message ''SYS'' env_generator_down (Some hello) empty_store)))"
    by (simp add: hello_run_generator_down)
  have h2: "Failed Generate
              \<in> set (trace (snd (send_message ''SYS'' env_generator_down (Some hello) empty_store)))"
    by (simp add: hello_run_generator_down)
  show ?thesis
    using h1 h2 generation_failure_leaves_user_message_only[OF h1 h2] by blast
qed

section \<open>The formatted document\<close>

lemma formatted_fields:
  "wire_id (formatted m) = objectId_toString (message_id m)"
  "wire_content (formatted m) = content m"
  "wire_senderType (formatted m) = senderType m"
  "wire_senderName (formatted m) = senderName m"
  "timestamp (formatted m) = createdAt m"
  by (simp_all add: formatted_def)

section \<open>Telling the fallback reply from a stored reply\<close>

text \<open>
  C10. In the first handler, a run that emits from the \<open>catch\<close> block emits exactly the
  fallback reply, whose id is \<open>temp_error_\<close> followed by the clock reading of
  \<open>Date.now()\<close> and whose sender name is \<open>System Error\<close>; a run that does not emits
  nothing or exactly one reply that formats an assistant message of the store, with the
  printed \<open>_id\<close> of that document as id and \<open>K'artz Assistant\<close> as sender name. The id of
  a fallback reply is the id of no formatted document, and its sender name is not the
  assistant's.
\<close>

theorem fallback_told_apart_from_persisted_reply:
  fixes P env data s
  defines "r \<equiv> snd (send_message P env data s)"
  shows "(EmitFallback \<in> set (trace r) \<longrightarrow>
            outbox r = [fallback_reply env]
            \<and> wire_id (fallback_reply env) = ''temp_error_'' @ number_toString (clock env FallbackId)
            \<and> wire_senderName (fallback_reply env) = ''System Error'')
       \<and> (EmitFallback \<notin> set (trace r) \<longrightarrow>
            outbox r = [] \<or>
            (\<exists>m \<in> set (messages (db r)).
               outbox r = [formatted m]
               \<and> wire_id (formatted m) = objectId_toString (message_id m)
               \<and> senderType m = ''ai''
               \<and> wire_senderName (formatted m) = ''K'artz Assistant''))
       \<and> (\<forall>m. wire_id (fallback_reply env) \<noteq> wire_id (formatted m))
       \<and> wire_senderName (fallback_reply env) \<noteq> ''K'artz Assistant''"
proof -
  have apart: "(\<forall>m. wire_id (fallback_reply env) \<noteq> wire_id (formatted m))
       \<and> wire_senderName (fallback_reply env) \<noteq> ''K'artz Assistant''"
    by (simp add: formatted_fields fallback_id_not_objectId fallback_reply_fields(4))
  have fb: "wire_id (fallback_reply env) = ''temp_error_'' @ number_toString (clock env FallbackId)
            \<and> wire_senderName (fallback_reply env) = ''System Error''"
    by (simp add: fallback_reply_fields)
  have dropped: ?thesis if "r = \<lparr>db = s, outbox = [], trace = []\<rparr>"
    using that apart by simp
  show ?thesis
  proof (cases data)
    case None
    then show ?thesis using dropped by (simp add: r_def send_message_def)
  next
    case (Some d)
    show ?thesis
    proof (cases "missing_data d")
      case True
      then show ?thesis using dropped Some by (simp add: r_def send_message_def)
    next
      case False
      then show ?thesis
      proof (cases rule: send_message_cases[where P = P and env = env and s = s])
        case (no_thread T)
        then show ?thesis using apart fb by (simp add: r_def Some)
      next
        case (user_write_failed chat s1 T)
        then show ?thesis using apart fb by (simp add: r_def Some)
      next
        case (generation_failed chat s1 T)
        then show ?thesis using apart fb by (simp add: r_def Some)
      next
        case (assistant_write_failed chat s1 T)
        then show ?thesis using apart fb by (simp add: r_def Some)
      next
        case (replied chat s1 T)
        have "EmitFallback \<notin> set T"
          using replied(1) by (auto simp: thread_resolved_def split: option.splits)
        moreover have "senderType (assistant_message P env d chat) = ''ai''"
          "senderName (assistant_message P env d chat) = ''K'artz Assistant''"
          by (simp_all add: assistant_message_def)
        ultimately show ?thesis using replied apart
          by (simp add: r_def Some formatted_fields)
      qed
    qed
  qed
qed


theorem fallback_told_apart_from_persisted_reply_witness:
  "EmitFallback \<in> set (trace (snd (send_message ''SYS'' env_generator_down (Some hello) empty_store)))
   \<and> outbox (snd (send_message ''SYS'' env_generator_down (Some hello) empty_store))
       = [fallback_reply env_generator_down]
   \<and> wire_id (fallback_reply env_generator_down) = ''temp_error_1900''
   \<and> wire_senderName (fallback_reply env_generator_down) = ''System Error''
   \<and> EmitFallback \<notin> set (trace (snd (send_message ''SYS'' env_ok (Some hello) empty_store)))
   \<and> (\<exists>m \<in> set (messages (db (snd (send_message ''SYS'' env_ok (Some hello) empty_store)))).
         outbox (snd (send_message ''SYS'' env_ok (Some hello) empty_store)) = [formatted m]
         \<and> wire_id (formatted m) = objectId_toString (message_id m)
         \<and> senderType m = ''ai''
         \<and> wire_senderName (formatted m) = ''K'artz Assistant'')"
proof -
  have down: "EmitFallback \<in> set (trace (snd (send_message ''SYS'' env_generator_down (Some hello) empty_store)))"
    by (simp add: hello_run_generator_down)
  have ok: "EmitFallback \<notin> set (trace (snd (send_message ''SYS'' env_ok (Some hello) empty_store)))"
    and sent: "outbox (snd (send_message ''SYS'' env_ok (Some hello) empty_store)) \<noteq> []"
    by (simp_all add: hello_run)
  have id: "''temp_error_'' @ number_toString (clock env_generator_down FallbackId) = ''temp_error_1900''"
    by (simp add: env_generator_down_def env_ok_def number_toString_def dec_digit_def)
  show ?thesis
    using down ok sent id
      fallback_told_apart_from_persisted_reply[of "''SYS''" env_generator_down "Some hello" empty_store]
      fallback_told_apart_from_persisted_reply[of "''SYS''" env_ok "Some hello" empty_store]
    by auto
qed

section \<open>The sender type on the wire\<close>

text \<open>
  C6, as stated, fails: the reply to \<open>Hello\<close> carries the sender type \<open>ai\<close>, which is
  none of \<open>user\<close>, \<open>assistant\<close>, \<open>human_agent\<close>.
\<close>

theorem sender_type_assistant_counterexample:
  "\<not> (\<forall>w \<in> set (outbox (snd (send_message ''SYS'' env_ok (Some hello) empty_store))).
         wire_senderType w \<in> {''user'', ''assistant'', ''human_agent''})"
  by (simp add: hello_run)

text \<open>
  C6, amended. Every event the first handler emits carries the sender type \<open>ai\<close>, one
  of the values \<open>user\<close>, \<open>ai\<close>, \<open>human_agent\<close> of the schema; the reply emitted after a
  successful generation formats a stored message of sender type \<open>ai\<close>.
\<close>

theorem outbound_sender_type_ai:
  fixes P env data s
  defines "r \<equiv> snd (send_message P env data s)"
  shows "(\<forall>w \<in> set (outbox r). wire_senderType w = ''ai'' \<and> wire_senderType w \<in> set senderType_enum)
       \<and> (EmitReply \<in> set (trace r) \<longrightarrow>
            (\<exists>m \<in> set (messages (db r)). outbox r = [formatted m] \<and> senderType m = ''ai''))"
proof (cases data)
  case None
  then show ?thesis by (simp add: r_def send_message_def)
next
  case (Some d)
  show ?thesis
  proof (cases "missing_data d")
    case True
    then show ?thesis using Some by (simp add: r_def send_message_def)
  next
    case False
    then show ?thesis
    proof (cases rule: send_message_cases[where P = P and env = env and s = s])
      case (no_thread T)
      then show ?thesis
        by (auto simp: r_def Some fallback_reply_fields senderType_enum_def thread_failure_def
            split: option.splits)
    next
      case (user_write_failed chat s1 T)
      then show ?thesis
        by (auto simp: r_def Some fallback_reply_fields senderType_enum_def thread_resolved_def
            split: option.splits)
    next
      case (generation_failed chat s1 T)
      then show ?thesis
        by (auto simp: r_def Some fallback_reply_fields senderType_enum_def thread_resolved_def
            split: option.splits)
    next
      case (assistant_write_failed chat s1 T)
      then show ?thesis
        by (auto simp: r_def Some fallback_reply_fields senderType_enum_def thread_resolved_def
            split: option.splits)
    next
      case (replied chat s1 T)
      have "senderType (assistant_message P env d chat) = ''ai''"
        by (simp add: assistant_message_def)
      then show ?thesis using replied
        by (simp add: r_def Some formatted_fields senderType_enum_def)
    qed
  qed
qed

theorem outbound_sender_type_ai_witness:
  "EmitReply \<in> set (trace (snd (send_message ''SYS'' env_ok (Some hello) empty_store)))
   \<and> outbox (snd (send_message ''SYS'' env_ok (Some hello) empty_store)) \<noteq> []
   \<and> list_all (\<lambda>w. wire_senderType w = ''ai'' \<and> wire_senderType w \<in> set senderType_enum)
        (outbox (snd (send_message ''SYS'' env_ok (Some hello) empty_store)))
   \<and> (\<exists>m \<in> set (messages (db (snd (send_message ''SYS'' env_ok (Some hello) empty_store)))).
         outbox (snd (send_message ''SYS'' env_ok (Some hello) empty_store)) = [formatted m]
         \<and> senderType m = ''ai'')"
proof -
  have h: "EmitReply \<in> set (trace (snd (send_message ''SYS'' env_ok (Some hello) empty_store)))"
    and sent: "outbox (snd (send_message ''SYS'' env_ok (Some hello) empty_store)) \<noteq> []"
    by (simp_all add: hello_run)
  show ?thesis
    using h sent outbound_sender_type_ai[of "''SYS''" env_ok "Some hello" empty_store]
    by (auto simp: list_all_iff)
qed

section \<open>Store writes and emissions of one event\<close>

lemmas write_counts = store_writes_def thread_writes_def message_writes_def

lemma thread_resolved_facts:
  assumes "thread_resolved env d s chat s1 T"
  shows "messages s1 = messages s" and "thread_writes T = 1" and "message_writes T = 0"
    and "Completed WriteUserMessage \<notin> set T" and "Failed WriteUserMessage \<notin> set T"
    and "Completed Generate \<notin> set T" and "Completed WriteAssistantMessage \<notin> set T"
  using assms by (auto simp: thread_resolved_def write_counts split: option.splits)

lemma thread_failure_facts:
  assumes "thread_failure d s T"
  shows "thread_writes T = 0" and "message_writes T = 0"
    and "Completed WriteUserMessage \<notin> set T" and "Failed WriteUserMessage \<notin> set T"
    and "Completed Generate \<notin> set T" and "Completed WriteAssistantMessage \<notin> set T"
  using assms by (auto simp: thread_failure_def write_counts split: option.splits)

lemma thread_writes_append: "thread_writes (xs @ ys) = thread_writes xs + thread_writes ys"
  by (simp add: thread_writes_def)

lemma message_writes_append: "message_writes (xs @ ys) = message_writes xs + message_writes ys"
  by (simp add: message_writes_def)

text \<open>
  C7, as stated, fails: the first message of a new user makes three store writes, the
  chat and the two messages.
\<close>

theorem two_store_writes_counterexample:
  "\<not> store_writes (trace (snd (send_message ''SYS'' env_ok (Some hello) empty_store))) \<le> 2"
  by (simp add: hello_run write_counts)

text \<open>
  C7, amended. On an event that passes the test of line 154, either handler completes
  at most one thread write (\<open>Chat.create\<close> or \<open>chat.save\<close>) and at most two message
  writes, three store writes at most; the store gains as many messages as message
  writes completed; the assistant message is written only after the generation call
  and the write of the user message completed. In the first handler the user message
  is written exactly when the thread write completed and \<open>Message.create\<close> did not
  refuse it, and exactly one event is emitted.
\<close>

theorem three_store_writes_one_reply:
  fixes P env d s
  defines "r \<equiv> snd (send_message P env (Some d) s)"
      and "r2 \<equiv> snd (send_message2 P env (Some d) s)"
  assumes valid: "\<not> missing_data d"
  shows "thread_writes (trace r) \<le> 1 \<and> message_writes (trace r) \<le> 2
       \<and> store_writes (trace r) \<le> 3
       \<and> length (messages (db r)) = length (messages s) + message_writes (trace r)
       \<and> (Completed WriteUserMessage \<in> set (trace r)
            \<longleftrightarrow> thread_writes (trace r) = 1 \<and> Failed WriteUserMessage \<notin> set (trace r))
       \<and> (Completed WriteAssistantMessage \<in> set (trace r)
            \<longrightarrow> Completed Generate \<in> set (trace r) \<and> Completed WriteUserMessage \<in> set (trace r))
       \<and> length (outbox r) = 1
       \<and> thread_writes (trace r2) \<le> 1 \<and> message_writes (trace r2) \<le> 2
       \<and> store_writes (trace r2) \<le> 3
       \<and> length (messages (db r2)) = length (messages s) + message_writes (trace r2)
       \<and> (Completed WriteAssistantMessage \<in> set (trace r2)
            \<longrightarrow> Completed Generate \<in> set (trace r2) \<and> Completed WriteUserMessage \<in> set (trace r2))"
proof -
  have first: "thread_writes (trace r) \<le> 1 \<and> message_writes (trace r) \<le> 2
       \<and> store_writes (trace r) \<le> 3
       \<and> length (messages (db r)) = length (messages s) + message_writes (trace r)
       \<and> (Completed WriteUserMessage \<in> set (trace r)
            \<longleftrightarrow> thread_writes (trace r) = 1 \<and> Failed WriteUserMessage \<notin> set (trace r))
       \<and> (Completed WriteAssistantMessage \<in> set (trace r)
            \<longrightarrow> Completed Generate \<in> set (trace r) \<and> Completed WriteUserMessage \<in> set (trace r))
       \<and> length (outbox r) = 1"
    using valid
  proof (cases rule: send_message_cases[where P = P and env = env and s = s])
    case (no_thread T)
    then show ?thesis using thread_failure_facts[of d s T]
      by (simp add: r_def store_writes_def thread_writes_append message_writes_append)
        (simp add: write_counts)
  next
    case (user_write_failed chat s1 T)
    then show ?thesis using thread_resolved_facts[of env d s chat s1 T]
      by (simp add: r_def store_writes_def thread_writes_append message_writes_append)
        (simp add: write_counts)
  next
    case (generation_failed chat s1 T)
    then show ?thesis using thread_resolved_facts[of env d s chat s1 T]
      by (simp add: r_def store_writes_def thread_writes_append message_writes_append)
        (simp add: write_counts)
  next
    case (assistant_write_failed chat s1 T)
    then show ?thesis using thread_resolved_facts[of env d s chat s1 T]
      by (simp add: r_def store_writes_def thread_writes_append message_writes_append)
        (simp add: write_counts)
  next
    case (replied chat s1 T)
    then show ?thesis using thread_resolved_facts[of env d s chat s1 T]
      by (simp add: r_def store_writes_def thread_writes_append message_writes_append)
        (simp add: write_counts)
  qed
  have second: "thread_writes (trace r2) \<le> 1 \<and> message_writes (trace r2) \<le> 2
       \<and> store_writes (trace r2) \<le> 3
       \<and> length (messages (db r2)) = length (messages s) + message_writes (trace r2)
       \<and> (Completed WriteAssistantMessage \<in> set (trace r2)
            \<longrightarrow> Completed Generate \<in> set (trace r2) \<and> Completed WriteUserMessage \<in> set (trace r2))"
    using valid
  proof (cases rule: send_message2_cases[where P = P and env = env and s = s])
    case (no_thread T)
    then show ?thesis using thread_failure_facts[of d s T]
      by (simp add: r2_def store_writes_def)
  next
    case (user_write_failed chat s1 T)
    then show ?thesis using thread_resolved_facts[of env d s chat s1 T]
      by (simp add: r2_def store_writes_def thread_writes_append message_writes_append)
        (simp add: write_counts)
  next
    case (generation_failed chat s1 T)
    then show ?thesis using thread_resolved_facts[of env d s chat s1 T]
      by (simp add: r2_def store_writes_def thread_writes_append message_writes_append)
        (simp add: write_counts)
  next
    case (assistant_write_failed chat s1 T)
    then show ?thesis using thread_resolved_facts[of env d s chat s1 T]
      by (simp add: r2_def store_writes_def thread_writes_append message_writes_append)
        (simp add: write_counts)
  next
    case (replied chat s1 T)
    then show ?thesis using thread_resolved_facts[of env d s chat s1 T]
      by (simp add: r2_def store_writes_def thread_writes_append message_writes_append)
        (simp add: write_counts)
  qed
  from first second show ?thesis by blast
qed


theorem three_store_writes_one_reply_witness:
  "\<not> missing_data hello
   \<and> thread_writes (trace (snd (send_message ''SYS'' env_ok (Some hello) empty_store))) = 1
   \<and> message_writes (trace (snd (send_message ''SYS'' env_ok (Some hello) empty_store))) = 2
   \<and> store_writes (trace (snd (send_message ''SYS'' env_ok (Some hello) empty_store))) \<le> 3
   \<and> length (messages (db (snd (send_message ''SYS'' env_ok (Some hello) empty_store)))) = 2
   \<and> Completed WriteAssistantMessage \<in> set (trace (snd (send_message ''SYS'' env_ok (Some hello) empty_store)))
   \<and> Completed Generate \<in> set (trace (snd (send_message ''SYS'' env_ok (Some hello) empty_store)))
   \<and> Completed WriteUserMessage \<in> set (trace (snd (send_message ''SYS'' env_ok (Some hello) empty_store)))
   \<and> length (outbox (snd (send_message ''SYS'' env_ok (Some hello) empty_store))) = 1
   \<and> store_writes (trace (snd (send_message2 ''SYS'' env_ok (Some hello) empty_store))) \<le> 3"
proof -
  have h: "\<not> missing_data hello"
    by (simp add: missing_data_def falsy_def hello_def)
  have e: "messages empty_store = []"
    by (simp add: empty_store_def)
  show ?thesis
    using h three_store_writes_one_reply[OF h, of "''SYS''" env_ok empty_store]
    by (simp add: hello_run write_counts e)
qed

section \<open>Failures while handling an event\<close>

text \<open>
  The first handler answers every event that passes the test of line 154 with exactly
  one event, and with the fallback reply whenever a call failed; its promise always
  resolves.
\<close>

lemma first_handler_answers_every_failure:
  fixes P env d s
  defines "r \<equiv> snd (send_message P env (Some d) s)"
  assumes valid: "\<not> missing_data d"
  shows "fst (send_message P env (Some d) s) = Resolved
       \<and> length (outbox r) = 1
       \<and> ((\<exists>c. Failed c \<in> set (trace r)) \<longrightarrow> outbox r = [fallback_reply env])
       \<and> ((\<forall>c. Failed c \<notin> set (trace r)) \<longrightarrow> EmitReply \<in> set (trace r))"
  using valid
proof (cases rule: send_message_cases[where P = P and env = env and s = s])
  case (no_thread T)
  then show ?thesis by (auto simp: r_def thread_failure_def split: option.splits)
next
  case (user_write_failed chat s1 T)
  then show ?thesis by (auto simp: r_def)
next
  case (generation_failed chat s1 T)
  then show ?thesis by (auto simp: r_def)
next
  case (assistant_write_failed chat s1 T)
  then show ?thesis by (auto simp: r_def)
next
  case (replied chat s1 T)
  then show ?thesis
    by (auto simp: r_def thread_resolved_def split: option.splits)
qed

text \<open>The second handler emits nothing once a call has failed.\<close>

lemma second_handler_silent_on_failure:
  fixes P env d s
  defines "r \<equiv> snd (send_message2 P env (Some d) s)"
  assumes valid: "\<not> missing_data d" and failed: "Failed c \<in> set (trace r)"
  shows "outbox r = []"
  using valid
proof (cases rule: send_message2_cases[where P = P and env = env and s = s])
  case (replied chat s1 T)
  then show ?thesis using failed
    by (auto simp: r_def thread_resolved_def split: option.splits)
qed (simp_all add: r_def)

text \<open>
  C1, on the second handler. The generator is down for the first message of a new user:
  the chat and the user message are stored and the promise resolves, but the \<open>catch\<close>
  block of lines 395-398 emits nothing, where the first handler sends the fallback
  reply (\<open>hello_run_generator_down\<close>).
\<close>

theorem second_handler_generation_failure_unanswered:
  "send_message2 ''SYS'' env_generator_down (Some (hello\<lparr>data_senderName := Some ''Ann''\<rparr>)) empty_store =
     (Resolved,
      \<lparr>db = \<lparr>chats = [\<lparr>chat_id = 1, userId = ''u1'', userEmail = ''a@b.com'',
                        status = ''ai_active'', lastMessageAt = 1000,
                        chat_createdAt = 1000, chat_updatedAt = 1000\<rparr>],
             messages = [\<lparr>message_id = 2, chatId = 1, content = ''Hello'',
                           senderType = ''user'', senderName = ''Ann'',
                           senderUid = Some ''u1'', createdAt = 1005, updatedAt = 1005\<rparr>]\<rparr>,
       outbox = [],
       trace = [Began FindChat, Completed FindChat, Began CreateChat, Completed CreateChat,
                Began WriteUserMessage, Completed WriteUserMessage,
                Began Generate, Failed Generate]\<rparr>)"
  by (simp add: handler_defs env_generator_down_def env_ok_def hello_def empty_store_def)

section \<open>The default sender name\<close>

text \<open>
  In the first handler an event without \<open>senderName\<close> is handled as the same event with
  the name \<open>Client\<close>, and the user message it stores carries that name.
\<close>

lemma try_block_default_name:
  "try_block P env (d\<lparr>data_senderName := None\<rparr>) r
     = try_block P env (d\<lparr>data_senderName := Some ''Client''\<rparr>) r"
  by (simp add: try_block_def find_or_create_chat_def fullPrompt_def js_or_def falsy_def
      cong: prod.case_cong sum.case_cong option.case_cong)

lemma first_handler_default_name:
  "send_message P env (Some (d\<lparr>data_senderName := None\<rparr>)) s
     = send_message P env (Some (d\<lparr>data_senderName := Some ''Client''\<rparr>)) s"
  by (simp add: send_message_def try_block_default_name missing_data_def Let_def)

lemma first_handler_stores_default_name:
  fixes P env d s
  defines "r \<equiv> snd (send_message P env (Some (d\<lparr>data_senderName := None\<rparr>)) s)"
  assumes written: "Completed WriteUserMessage \<in> set (trace r)"
  shows "\<exists>m rest. messages (db r) = messages s @ m # rest
           \<and> senderType m = ''user'' \<and> senderName m = ''Client''"
proof (cases "missing_data (d\<lparr>data_senderName := None\<rparr>)")
  case True
  then show ?thesis using written by (simp add: r_def send_message_def)
next
  case False
  have name: "cast_string (js_or None ''Client'') = ''Client''"
    by (simp add: js_or_def falsy_def cast_string_def)
  from False show ?thesis
  proof (cases rule: send_message_cases[where P = P and env = env and s = s])
    case (no_thread T)
    then show ?thesis using written
      by (auto simp: r_def thread_failure_def split: option.splits)
  next
    case (user_write_failed chat s1 T)
    then show ?thesis using written
      by (auto simp: r_def thread_resolved_def split: option.splits)
  next
    case (generation_failed chat s1 T)
    then show ?thesis by (simp add: r_def user_message_def name)
  next
    case (assistant_write_failed chat s1 T)
    then show ?thesis by (simp add: r_def user_message_def name)
  next
    case (replied chat s1 T)
    then show ?thesis by (simp add: r_def user_message_def name)
  qed
qed


text \<open>
  C8, on the second handler. It hands \<open>data.senderName\<close> to \<open>Message.create\<close> as it is:
  for an event without \<open>senderName\<close> the schema (\<open>senderName\<close> is \<open>required\<close>) refuses the
  user message, nothing is stored for the exchange beyond the chat, the generator is not
  called and nothing is emitted.
\<close>

theorem second_handler_rejects_unnamed_sender:
  "send_message2 ''SYS'' env_ok (Some hello) empty_store =
     (Resolved,
      \<lparr>db = \<lparr>chats = [\<lparr>chat_id = 1, userId = ''u1'', userEmail = ''a@b.com'',
                        status = ''ai_active'', lastMessageAt = 1000,
                        chat_createdAt = 1000, chat_updatedAt = 1000\<rparr>],
             messages = []\<rparr>,
       outbox = [],
       trace = [Began FindChat, Completed FindChat, Began CreateChat, Completed CreateChat,
                Began WriteUserMessage, Failed WriteUserMessage]\<rparr>)"
  by (simp add: handler_defs env_ok_def hello_def empty_store_def)

section \<open>The history route\<close>

lemma find_filter: "find P xs = (case filter P xs of [] \<Rightarrow> None | x # _ \<Rightarrow> Some x)"
  by (induction xs) auto

lemma Chat_findOne_threads:
  "\<not> fault env FindChat \<Longrightarrow>
   Chat_findOne env (Some uid) s =
     Inr (case threads_of uid s of [] \<Rightarrow> None | chat # _ \<Rightarrow> Some chat, s)"
  by (simp add: Chat_findOne_def threads_of_def find_filter)

lemma formatted_timestamps: "map timestamp (map formatted ms) = map createdAt ms"
  by (simp add: formatted_def)

text \<open>
  C4. For a non-empty uid and a store that answers the lookup of the chat: when the
  user has no thread the route answers 200 with the empty list; when the user has one
  (the first, \<open>chat\<close>) and the store answers the query of the messages, the route
  answers 200 with a list sorted by timestamp that holds exactly the formatted messages
  of that chat; and a formatted message has the five fields \<open>id\<close>, \<open>content\<close>,
  \<open>senderType\<close>, \<open>senderName\<close>, \<open>timestamp\<close>, read from the document.
\<close>

theorem chat_history_sorted_projection:
  assumes uid: "uid \<noteq> []" and found: "\<not> fault env FindChat"
  shows "(threads_of uid s = [] \<longrightarrow> chat_history env uid s = Response 200 (Messages []))
       \<and> (\<forall>chat rest. threads_of uid s = chat # rest \<longrightarrow> \<not> fault env FindMessages \<longrightarrow>
            (\<exists>ws. chat_history env uid s = Response 200 (Messages ws)
                \<and> sorted (map timestamp ws)
                \<and> mset ws = image_mset formatted
                               (filter_mset (\<lambda>m. chatId m = chat_id chat) (mset (messages s)))))
       \<and> (\<forall>m. formatted m =
                 \<lparr>wire_id = objectId_toString (message_id m), wire_content = content m,
                  wire_senderType = senderType m, wire_senderName = senderName m,
                  timestamp = createdAt m\<rparr>)"
proof (intro conjI allI impI)
  assume "threads_of uid s = []"
  then show "chat_history env uid s = Response 200 (Messages [])"
    using uid found by (simp add: chat_history_def Chat_findOne_threads)
next
  fix chat rest
  assume thread: "threads_of uid s = chat # rest" and listed: "\<not> fault env FindMessages"
  let ?ms = "sort_key createdAt (filter (\<lambda>m. chatId m = chat_id chat) (messages s))"
  have "chat_history env uid s = Response 200 (Messages (map formatted ?ms))"
    using uid found thread listed
    by (simp add: chat_history_def Chat_findOne_threads Message_find_sorted_def)
  moreover have "sorted (map timestamp (map formatted ?ms))"
    unfolding formatted_timestamps by (rule sorted_sort_key)
  moreover have "mset (map formatted ?ms) =
      image_mset formatted (filter_mset (\<lambda>m. chatId m = chat_id chat) (mset (messages s)))"
    by simp
  ultimately show "\<exists>ws. chat_history env uid s = Response 200 (Messages ws)
                \<and> sorted (map timestamp ws)
                \<and> mset ws = image_mset formatted
                               (filter_mset (\<lambda>m. chatId m = chat_id chat) (mset (messages s)))"
    by blast
next
  fix m
  show "formatted m =
          \<lparr>wire_id = objectId_toString (message_id m), wire_content = content m,
           wire_senderType = senderType m, wire_senderName = senderName m,
           timestamp = createdAt m\<rparr>"
    by (simp add: formatted_def)
qed

lemma skewed_history:
  "chat_history env_ok ''u1'' skewed_store =
     Response 200 (Messages
       [\<lparr>wire_id = objectId_toString 2, wire_content = ''Hello'', wire_senderType = ''user'',
          wire_senderName = ''Client'', timestamp = 1005\<rparr>,
        \<lparr>wire_id = objectId_toString 3, wire_content = ''Hi there'', wire_senderType = ''ai'',
          wire_senderName = ''K'artz Assistant'', timestamp = 1900\<rparr>])"
  by (simp add: chat_history_def Chat_findOne_def Message_find_sorted_def formatted_def
      env_ok_def skewed_store_def)

theorem chat_history_sorted_projection_witness:
  "''u2'' \<noteq> [] \<and> ''u1'' \<noteq> [] \<and> \<not> fault env_ok FindChat \<and> \<not> fault env_ok FindMessages
   \<and> threads_of ''u2'' skewed_store = []
   \<and> chat_history env_ok ''u2'' skewed_store = Response 200 (Messages [])
   \<and> threads_of ''u1'' skewed_store = [hd (chats skewed_store)]
   \<and> chat_history env_ok ''u1'' skewed_store = Response 200 (Messages skewed_history_u1)
   \<and> sorted (map timestamp skewed_history_u1)
   \<and> mset skewed_history_u1 = image_mset formatted
        (filter_mset (\<lambda>m. chatId m = chat_id (hd (chats skewed_store)))
           (mset (messages skewed_store)))"
proof -
  have u2: "''u2'' \<noteq> []" and u1: "''u1'' \<noteq> []" by simp_all
  have f: "\<not> fault env_ok FindChat" and g: "\<not> fault env_ok FindMessages"
    by (simp_all add: env_ok_def)
  have none: "threads_of ''u2'' skewed_store = []"
    by (simp add: threads_of_def skewed_store_def)
  have one: "threads_of ''u1'' skewed_store = hd (chats skewed_store) # []"
    by (simp add: threads_of_def skewed_store_def)
  have sent: "chat_history env_ok ''u1'' skewed_store = Response 200 (Messages skewed_history_u1)"
    by (simp add: skewed_history skewed_history_u1_def)
  show ?thesis
    using u1 u2 f g none one sent
      chat_history_sorted_projection[OF u2 f, of skewed_store]
      chat_history_sorted_projection[OF u1 f, of skewed_store]
    by auto
qed


section \<open>One thread per user\<close>

lemma distinct_key_filter: "distinct (map f xs) \<Longrightarrow> length (filter (\<lambda>x. f x = u) xs) \<le> 1"
proof (induction xs)
  case Nil
  then show ?case by simp
next
  case (Cons a xs)
  show ?case
  proof (cases "f a = u")
    case True
    have "f a \<notin> f ` set xs"
      using Cons.prems by simp
    then have "\<forall>x \<in> set xs. f x \<noteq> u"
      using True by (metis imageI)
    then have "filter (\<lambda>x. f x = u) xs = []"
      by (simp add: filter_empty_conv)
    then show ?thesis using True by simp
  next
    case False
    then show ?thesis using Cons by simp
  qed
qed

lemma find_unique:
  "distinct (map userId cs) \<Longrightarrow> old \<in> set cs \<Longrightarrow> Some (userId old) = uid \<Longrightarrow>
   find (\<lambda>c. Some (userId c) = uid) cs = Some old"
  by (induction cs) (auto simp: image_iff)

lemma touched_by_id:
  assumes "distinct (map chat_id cs)" and "old \<in> set cs"
  shows "map (\<lambda>x. if chat_id x = chat_id old then new else x) cs
           = map (\<lambda>x. if x = old then new else x) cs"
  using assms by (intro map_cong refl) (auto simp: distinct_map inj_on_def)

lemma touched_keeps:
  "f new = f old \<Longrightarrow> map f (map (\<lambda>x. if x = old then new else x) cs) = map f cs"
  by (induction cs) auto

text \<open>
  Each store operation keeps the indexes unique, whatever the store it meets: a lookup
  writes nothing, \<open>Chat.create\<close> refuses a second chat of a user, \<open>chat.save\<close> replaces the
  stored document of the same \<open>_id\<close> and user, and \<open>Message.create\<close> leaves the chats alone.
  So does any interleaving of the operations of several handlers.
\<close>

lemma Chat_findOne_reads: "Chat_findOne env uid s = Inr (found, s') \<Longrightarrow> s' = s"
  by (auto simp: Chat_findOne_def split: if_splits)

lemma Chat_create_unique:
  assumes "unique_indexes s" and "Chat_create env n s = Inr (c, s')"
  shows "unique_indexes s'"
  using assms by (auto simp: Chat_create_def unique_indexes_def Let_def split: if_splits)

lemma chat_save_unique:
  assumes idx: "unique_indexes s" and stored: "x \<in> set (chats s)"
    and same: "chat_id c = chat_id x" "userId c = userId x"
    and saved: "chat_save env c s = Inr (c', s')"
  shows "unique_indexes s'"
proof -
  let ?doc = "c\<lparr>chat_updatedAt := clock env (Stamp SaveChat)\<rparr>"
  have "chats s' = map (\<lambda>y. if chat_id y = chat_id x then ?doc else y) (chats s)"
    using saved same by (auto simp: chat_save_def Let_def split: if_splits)
  also have "\<dots> = map (\<lambda>y. if y = x then ?doc else y) (chats s)"
    using idx stored by (simp add: unique_indexes_def touched_by_id)
  finally have s': "chats s' = map (\<lambda>y. if y = x then ?doc else y) (chats s)" .
  have "map userId (chats s') = map userId (chats s)"
    and "map chat_id (chats s') = map chat_id (chats s)"
    unfolding s' by (rule touched_keeps, simp add: same)+
  then show ?thesis using idx by (simp add: unique_indexes_def)
qed

lemma Message_create_unique:
  assumes "unique_indexes s" and "Message_create env c n s = Inr (m, s')"
  shows "unique_indexes s'"
  using assms by (auto simp: Message_create_def unique_indexes_def Let_def split: if_splits)

lemma thread_resolved_unique:
  assumes "thread_resolved env d s chat s1 T" and "unique_indexes s"
  shows "unique_indexes s1"
proof (cases "find (\<lambda>c. Some (userId c) = data_uid d) (chats s)")
  case None
  then show ?thesis using assms
    by (auto simp: thread_resolved_def unique_indexes_def created_chat_def)
next
  case (Some old)
  then have old: "old \<in> set (chats s)"
    by (auto simp: find_Some_iff in_set_conv_nth)
  have s1: "chats s1 = map (\<lambda>x. if x = old then touched_chat env old else x) (chats s)"
    using assms Some old by (simp add: thread_resolved_def unique_indexes_def touched_by_id)
  have "map userId (chats s1) = map userId (chats s)"
    and "map chat_id (chats s1) = map chat_id (chats s)"
    unfolding s1 by (rule touched_keeps, simp add: touched_chat_def)+
  then show ?thesis using assms(2) by (simp add: unique_indexes_def)
qed

lemma send_message_unique:
  assumes "unique_indexes s"
  shows "unique_indexes (db (snd (send_message P env data s)))"
proof (cases data)
  case None
  then show ?thesis using assms by (simp add: send_message_def)
next
  case (Some d)
  show ?thesis
  proof (cases "missing_data d")
    case True
    then show ?thesis using assms Some by (simp add: send_message_def)
  next
    case False
    then show ?thesis
    proof (cases rule: send_message_cases[where P = P and env = env and s = s])
      case (no_thread T)
      then show ?thesis using assms Some by simp
    next
      case (user_write_failed chat s1 T)
      then show ?thesis using thread_resolved_unique[OF _ assms] Some by simp
    next
      case (generation_failed chat s1 T)
      then show ?thesis using thread_resolved_unique[OF _ assms] Some
        by (simp add: unique_indexes_def)
    next
      case (assistant_write_failed chat s1 T)
      then show ?thesis using thread_resolved_unique[OF _ assms] Some
        by (simp add: unique_indexes_def)
    next
      case (replied chat s1 T)
      then show ?thesis using thread_resolved_unique[OF _ assms] Some
        by (simp add: unique_indexes_def)
    qed
  qed
qed

lemma run_events_unique: "unique_indexes s \<Longrightarrow> unique_indexes (run_events P evs s)"
proof (induction evs arbitrary: s)
  case Nil
  then show ?case by simp
next
  case (Cons ev evs)
  obtain env data where ev: "ev = (env, data)" by (cases ev)
  show ?case using Cons.IH[OF send_message_unique[OF Cons.prems]] by (simp add: ev)
qed

lemma existing_thread_reused:
  fixes P env d s
  defines "r \<equiv> snd (send_message P env (Some d) s)"
  assumes idx: "unique_indexes s" and valid: "\<not> missing_data d"
    and old: "old \<in> set (chats s)" and mine: "Some (userId old) = data_uid d"
  shows "map thread_identity (chats (db r)) = map thread_identity (chats s)
       \<and> (\<forall>c \<in> set (chats s). c \<noteq> old \<longrightarrow> c \<in> set (chats (db r)))
       \<and> (Completed SaveChat \<in> set (trace r) \<longrightarrow>
            (\<exists>c \<in> set (chats (db r)). chat_id c = chat_id old
                                       \<and> lastMessageAt c = clock env TouchChat))
       \<and> Began CreateChat \<notin> set (trace r)"
proof -
  have found: "find (\<lambda>c. Some (userId c) = data_uid d) (chats s) = Some old"
    using idx old mine by (simp add: unique_indexes_def find_unique)
  have resolved: "chats s1 = map (\<lambda>x. if x = old then touched_chat env old else x) (chats s)
       \<and> T = [Began FindChat, Completed FindChat, Began SaveChat, Completed SaveChat]"
    if "thread_resolved env d s chat s1 T" for chat s1 T
    using that found idx old by (simp add: thread_resolved_def unique_indexes_def touched_by_id)
  have kept: "map thread_identity (map (\<lambda>x. if x = old then touched_chat env old else x) (chats s))
                = map thread_identity (chats s)"
    by (rule touched_keeps) (simp add: thread_identity_def touched_chat_def)
  have others: "\<forall>c \<in> set (chats s). c \<noteq> old \<longrightarrow>
                  c \<in> set (map (\<lambda>x. if x = old then touched_chat env old else x) (chats s))"
    by (auto simp: image_iff)
  have moved: "\<exists>c \<in> set (map (\<lambda>x. if x = old then touched_chat env old else x) (chats s)).
                 chat_id c = chat_id old \<and> lastMessageAt c = clock env TouchChat"
    using old by (auto simp: image_iff touched_chat_def intro!: bexI[of _ old])
  from valid show ?thesis
  proof (cases rule: send_message_cases[where P = P and env = env and s = s])
    case (no_thread T)
    then show ?thesis using found
      by (auto simp: r_def thread_failure_def)
  next
    case (user_write_failed chat s1 T)
    then show ?thesis using resolved[of chat s1 T] kept others moved by (simp add: r_def)
  next
    case (generation_failed chat s1 T)
    then show ?thesis using resolved[of chat s1 T] kept others moved by (simp add: r_def)
  next
    case (assistant_write_failed chat s1 T)
    then show ?thesis using resolved[of chat s1 T] kept others moved by (simp add: r_def)
  next
    case (replied chat s1 T)
    then show ?thesis using resolved[of chat s1 T] kept others moved by (simp add: r_def)
  qed
qed


text \<open>A handler that runs alone leaves the store that \<open>send_message\<close> leaves.\<close>

lemma run_handler_Finished: "h_stage h = Finished \<Longrightarrow> run_handler n P h s = (h, s)"
  by (induction n) (simp_all add: advance_def)

lemma db_catch_block: "db (catch_block env r) = db r"
  by (simp add: catch_block_def socket_emit_def log_def)

lemma send_message_db:
  "\<not> missing_data d \<Longrightarrow>
   db (snd (send_message P env (Some d) s))
     = db (snd (try_block P env d \<lparr>db = s, outbox = [], trace = []\<rparr>))"
  by (simp add: send_message_def db_catch_block split: prod.splits sum.splits)

lemma try_block_after_thread:
  assumes "find_or_create_chat env d r = (Inr chat, r1)"
  shows "db (snd (try_block P env d r))
           = snd (run_handler 3 P \<lparr>h_env = env, h_data = d, h_stage = WritingUser chat\<rparr> (db r1))"
proof -
  let ?nu = "\<lparr>nm_chatId = chat_id chat, nm_content = data_content d,
              nm_senderType = Some ''user'',
              nm_senderName = js_or (data_senderName d) ''Client'',
              nm_senderUid = data_uid d\<rparr>"
  show ?thesis
  proof (cases "Message_create env WriteUserMessage ?nu (db r1)")
    case (Inl e)
    then show ?thesis
      by (simp add: try_block_def assms await_Inl numeral_eq_Suc advance_def
          run_handler_Finished)
  next
    case user: (Inr p)
    obtain m s2 where p: "p = (m, s2)" by (cases p)
    show ?thesis
    proof (cases "generateContent env (fullPrompt P d) s2")
      case (Inl e)
      then show ?thesis using user
        by (simp add: try_block_def assms p await_Inr await_Inl numeral_eq_Suc advance_def
            run_handler_Finished)
    next
      case gen: (Inr q)
      then have q: "q = (generated env (fullPrompt P d), s2)"
        by (auto simp: generateContent_def split: if_splits)
      let ?na = "\<lparr>nm_chatId = chat_id chat, nm_content = Some (generated env (fullPrompt P d)),
                  nm_senderType = Some ''ai'', nm_senderName = Some ''K'artz Assistant'',
                  nm_senderUid = None\<rparr>"
      show ?thesis
      proof (cases "Message_create env WriteAssistantMessage ?na s2")
        case (Inl e)
        then show ?thesis using user gen
          by (simp add: try_block_def assms p q await_Inr await_Inl numeral_eq_Suc advance_def)
      next
        case (Inr w)
        obtain a s3 where w: "w = (a, s3)" by (cases w)
        show ?thesis using user gen Inr
          by (simp add: try_block_def assms p q w await_Inr numeral_eq_Suc advance_def
              socket_emit_def log_def)
      qed
    qed
  qed
qed

lemma alone_send_message:
  assumes valid: "\<not> missing_data d"
  shows "alone P env d s = db (snd (send_message P env (Some d) s))"
proof -
  let ?r = "\<lparr>db = s, outbox = [], trace = []\<rparr>"
  let ?h = "\<lparr>h_env = env, h_data = d, h_stage = Lookup\<rparr>"
  have failed: "alone P env d s = db (snd (try_block P env d ?r))"
    if thread: "find_or_create_chat env d ?r = (Inl e, r1)" and store: "db r1 = s"
      and stopped: "run_handler 2 P ?h s = (?h\<lparr>h_stage := Finished\<rparr>, s)" for e r1
  proof -
    have "run_handler 5 P ?h s = run_handler 3 P (?h\<lparr>h_stage := Finished\<rparr>) s"
      using stopped by (simp add: numeral_eq_Suc split: prod.splits)
    then show ?thesis
      by (simp add: alone_def run_handler_Finished try_block_def thread store)
  qed
  have resolved: "alone P env d s = db (snd (try_block P env d ?r))"
    if thread: "find_or_create_chat env d ?r = (Inr chat, r1)"
      and reached: "run_handler 2 P ?h s = (?h\<lparr>h_stage := WritingUser chat\<rparr>, db r1)" for chat r1
  proof -
    have "run_handler 5 P ?h s = run_handler 3 P (?h\<lparr>h_stage := WritingUser chat\<rparr>) (db r1)"
      using reached by (simp add: numeral_eq_Suc split: prod.splits)
    then show ?thesis
      by (simp add: alone_def try_block_after_thread[OF thread])
  qed
  have "alone P env d s = db (snd (try_block P env d ?r))"
  proof (cases "fault env FindChat")
    case True
    then show ?thesis
      by (intro failed[of StoreFault "?r\<lparr>trace := [Began FindChat, Failed FindChat]\<rparr>"])
        (simp_all add: find_or_create_chat_def await_Inl Chat_findOne_def numeral_eq_Suc
          advance_def)
  next
    case nofault: False
    let ?found = "find (\<lambda>c. Some (userId c) = data_uid d) (chats s)"
    let ?r1 = "?r\<lparr>trace := [Began FindChat, Completed FindChat]\<rparr>"
    have found: "await FindChat (Chat_findOne env (data_uid d)) ?r = (Inr ?found, ?r1)"
      using nofault by (simp add: await_def log_def Chat_findOne_def)
    have looked: "Chat_findOne env (data_uid d) s = Inr (?found, s)"
      using nofault by (simp add: Chat_findOne_def)
    show ?thesis
    proof (cases ?found)
      case None
      let ?n = "\<lparr>nc_userId = data_uid d, nc_userEmail = data_email d,
                 nc_status = Some ''ai_active''\<rparr>"
      have eq: "find_or_create_chat env d ?r = await CreateChat (Chat_create env ?n) ?r1"
        by (simp add: find_or_create_chat_def found None)
      show ?thesis
      proof (cases "Chat_create env ?n s")
        case (Inl e)
        then show ?thesis
          by (intro failed[of e "?r1\<lparr>trace := trace ?r1 @ [Began CreateChat, Failed CreateChat]\<rparr>"])
            (simp_all add: eq await_Inl numeral_eq_Suc advance_def looked None)
      next
        case (Inr p)
        obtain c s2 where p: "p = (c, s2)" by (cases p)
        show ?thesis using Inr
          by (intro resolved[of c "?r1\<lparr>db := s2, trace := trace ?r1 @ [Began CreateChat, Completed CreateChat]\<rparr>"])
            (simp_all add: eq p await_Inr numeral_eq_Suc advance_def looked None)
      qed
    next
      case (Some old)
      let ?c = "old\<lparr>lastMessageAt := clock env TouchChat\<rparr>"
      have eq: "find_or_create_chat env d ?r = await SaveChat (chat_save env ?c) ?r1"
        by (simp add: find_or_create_chat_def found Some)
      show ?thesis
      proof (cases "chat_save env ?c s")
        case (Inl e)
        then show ?thesis
          by (intro failed[of e "?r1\<lparr>trace := trace ?r1 @ [Began SaveChat, Failed SaveChat]\<rparr>"])
            (simp_all add: eq await_Inl numeral_eq_Suc advance_def looked Some)
      next
        case (Inr p)
        obtain c s2 where p: "p = (c, s2)" by (cases p)
        show ?thesis using Inr
          by (intro resolved[of c "?r1\<lparr>db := s2, trace := trace ?r1 @ [Began SaveChat, Completed SaveChat]\<rparr>"])
            (simp_all add: eq p await_Inr numeral_eq_Suc advance_def looked Some)
      qed
    qed
  qed
  then show ?thesis by (simp add: send_message_db[OF valid])
qed


text \<open>
  Every step of every handler keeps the indexes unique and keeps, for the handlers
  about to save a chat, a chat of that \<open>_id\<close> and user in the store.
\<close>

lemma same_threads_refl: "same_threads s s"
  by (auto simp: same_threads_def)

lemma pending_ok_same_threads: "same_threads s s' \<Longrightarrow> pending_ok s h \<Longrightarrow> pending_ok s' h"
  by (fastforce simp: pending_ok_def same_threads_def split: stage.splits)

lemma Chat_create_same_threads: "Chat_create env n s = Inr (c, s') \<Longrightarrow> same_threads s s'"
  by (auto simp: Chat_create_def same_threads_def Let_def split: if_splits)

lemma chat_save_same_threads:
  assumes "chat_save env c s = Inr (c', s')" and "x \<in> set (chats s)"
    and "chat_id x = chat_id c" and "userId x = userId c"
    and "distinct (map chat_id (chats s))"
  shows "same_threads s s'"
proof -
  let ?doc = "c\<lparr>chat_updatedAt := clock env (Stamp SaveChat)\<rparr>"
  have "chats s' = map (\<lambda>y. if chat_id y = chat_id x then ?doc else y) (chats s)"
    using assms(1,3) by (auto simp: chat_save_def Let_def split: if_splits)
  then have s': "chats s' = map (\<lambda>y. if y = x then ?doc else y) (chats s)"
    using assms(2,5) by (simp add: touched_by_id)
  show ?thesis
    unfolding same_threads_def
  proof
    fix y assume y: "y \<in> set (chats s)"
    show "\<exists>x' \<in> set (chats s'). chat_id x' = chat_id y \<and> userId x' = userId y"
    proof (cases "y = x")
      case True
      then have "?doc \<in> set (chats s')" using assms(2) by (auto simp: s' image_iff)
      then show ?thesis using True assms(3,4) by (intro bexI[of _ ?doc]) simp_all
    next
      case False
      then have "y \<in> set (chats s')" using y by (auto simp: s' image_iff)
      then show ?thesis by blast
    qed
  qed
qed

lemma Message_create_same_threads: "Message_create env c n s = Inr (m, s') \<Longrightarrow> same_threads s s'"
  by (auto simp: Message_create_def same_threads_def Let_def split: if_splits)

lemma advance_invariant:
  assumes idx: "unique_indexes s" and mine: "pending_ok s h" and step: "advance P h s = (h', s')"
  shows "unique_indexes s' \<and> same_threads s s' \<and> pending_ok s' h'"
proof (cases "h_stage h")
  case Lookup
  show ?thesis
  proof (cases "Chat_findOne (h_env h) (data_uid (h_data h)) s")
    case (Inl e)
    then show ?thesis using step idx Lookup
      by (auto simp: advance_def same_threads_refl pending_ok_def)
  next
    case (Inr p)
    then obtain found where p: "p = (found, s)"
      by (cases p) (auto dest: Chat_findOne_reads)
    show ?thesis
    proof (cases found)
      case None
      then show ?thesis using step idx Lookup Inr p
        by (auto simp: advance_def same_threads_refl pending_ok_def)
    next
      case (Some chat)
      then have "chat \<in> set (chats s)"
        using Inr p by (auto simp: Chat_findOne_def find_Some_iff in_set_conv_nth split: if_splits)
      then show ?thesis using step idx Lookup Inr p Some
        by (auto simp: advance_def same_threads_refl pending_ok_def)
    qed
  qed
next
  case Creating
  let ?n = "\<lparr>nc_userId = data_uid (h_data h), nc_userEmail = data_email (h_data h),
             nc_status = Some ''ai_active''\<rparr>"
  show ?thesis
  proof (cases "Chat_create (h_env h) ?n s")
    case (Inl e)
    then show ?thesis using step idx Creating
      by (auto simp: advance_def same_threads_refl pending_ok_def)
  next
    case (Inr p)
    obtain c s2 where p: "p = (c, s2)" by (cases p)
    have "unique_indexes s2" and "same_threads s s2"
      using Inr p idx by (auto intro: Chat_create_unique Chat_create_same_threads)
    then show ?thesis using step Creating Inr p
      by (auto simp: advance_def pending_ok_def)
  qed
next
  case (Saving c)
  then obtain x where x: "x \<in> set (chats s)" "chat_id x = chat_id c" "userId x = userId c"
    using mine by (auto simp: pending_ok_def)
  show ?thesis
  proof (cases "chat_save (h_env h) c s")
    case (Inl e)
    then show ?thesis using step idx Saving
      by (auto simp: advance_def same_threads_refl pending_ok_def)
  next
    case (Inr p)
    obtain c' s2 where p: "p = (c', s2)" by (cases p)
    have "unique_indexes s2"
      using chat_save_unique[OF idx x(1) x(2)[symmetric] x(3)[symmetric]] Inr p by simp
    moreover have "same_threads s s2"
      using chat_save_same_threads[OF _ x] Inr p idx by (simp add: unique_indexes_def)
    ultimately show ?thesis using step Saving Inr p
      by (auto simp: advance_def pending_ok_def)
  qed
next
  case (WritingUser chat)
  let ?n = "\<lparr>nm_chatId = chat_id chat, nm_content = data_content (h_data h),
             nm_senderType = Some ''user'',
             nm_senderName = js_or (data_senderName (h_data h)) ''Client'',
             nm_senderUid = data_uid (h_data h)\<rparr>"
  show ?thesis
  proof (cases "Message_create (h_env h) WriteUserMessage ?n s")
    case (Inl e)
    then show ?thesis using step idx WritingUser
      by (auto simp: advance_def same_threads_refl pending_ok_def)
  next
    case (Inr p)
    obtain m s2 where p: "p = (m, s2)" by (cases p)
    have "unique_indexes s2" and "same_threads s s2"
      using Inr p idx by (auto intro: Message_create_unique Message_create_same_threads)
    then show ?thesis using step WritingUser Inr p
      by (auto simp: advance_def pending_ok_def)
  qed
next
  case (Generating chat)
  then show ?thesis using step idx
    by (cases "fault (h_env h) Generate")
      (auto simp: advance_def generateContent_def same_threads_refl pending_ok_def Let_def)
next
  case (WritingAssistant chat aiText)
  let ?n = "\<lparr>nm_chatId = chat_id chat, nm_content = Some aiText,
             nm_senderType = Some ''ai'', nm_senderName = Some ''K'artz Assistant'',
             nm_senderUid = None\<rparr>"
  show ?thesis
  proof (cases "Message_create (h_env h) WriteAssistantMessage ?n s")
    case (Inl e)
    then show ?thesis using step idx WritingAssistant
      by (auto simp: advance_def same_threads_refl pending_ok_def)
  next
    case (Inr p)
    obtain m s2 where p: "p = (m, s2)" by (cases p)
    have "unique_indexes s2" and "same_threads s s2"
      using Inr p idx by (auto intro: Message_create_unique Message_create_same_threads)
    then show ?thesis using step WritingAssistant Inr p
      by (auto simp: advance_def pending_ok_def)
  qed
next
  case Finished
  then show ?thesis using step idx mine
    by (auto simp: advance_def same_threads_refl)
qed

lemma interleaved_step_invariant:
  assumes "interleaved P st st'" and "interleaved_inv st"
  shows "interleaved_inv st'"
  using assms
proof (induction rule: interleaved.induct)
  case (arrival d s hs env)
  then show ?case by (auto simp: pending_ok_def)
next
  case (progress i hs s h' s')
  have idx: "unique_indexes s" and all: "\<forall>h \<in> set hs. pending_ok s h"
    using progress.prems by simp_all
  have mine: "pending_ok s (hs ! i)"
    using all progress.hyps(1) by simp
  have step: "unique_indexes s' \<and> same_threads s s' \<and> pending_ok s' h'"
    using advance_invariant[OF idx mine progress.hyps(2)] .
  have "pending_ok s' g" if "g \<in> set (hs[i := h'])" for g
  proof (cases "g = h'")
    case True
    then show ?thesis using step by simp
  next
    case False
    then have "g \<in> set hs"
      using that set_update_subset_insert[of hs i h'] by auto
    then show ?thesis using all step pending_ok_same_threads by blast
  qed
  then show ?case using step by simp
qed

lemma interleaved_invariant:
  assumes "(interleaved P)\<^sup>*\<^sup>* st st'" and "interleaved_inv st"
  shows "interleaved_inv st'"
  using assms by (induction rule: rtranclp_induct) (auto intro: interleaved_step_invariant)

lemma interleaved_one_thread:
  assumes "unique_indexes s0" and "(interleaved P)\<^sup>*\<^sup>* (s0, []) (s, hs)"
  shows "length (threads_of u s) \<le> 1"
proof -
  have "interleaved_inv (s, hs)"
    using interleaved_invariant[OF assms(2)] assms(1) by simp
  then have "distinct (map userId (chats s))"
    by (simp add: unique_indexes_def)
  then show ?thesis
    unfolding threads_of_def by (rule distinct_key_filter)
qed


text \<open>
  Two handlers race on the first message of a user: both find no chat, the first
  creates one, and the unique index refuses the second.
\<close>

lemma race:
  "(interleaved ''SYS'')\<^sup>*\<^sup>* (empty_store, [])
     (\<lparr>chats = [hello_chat], messages = []\<rparr>, [racing (WritingUser hello_chat), racing Finished])"
proof -
  let ?s1 = "\<lparr>chats = [hello_chat], messages = []\<rparr>"
  have v: "\<not> missing_data hello"
    by (simp add: missing_data_def falsy_def hello_def)
  have look: "advance ''SYS'' (racing Lookup) empty_store = (racing Creating, empty_store)"
    by (simp add: advance_def racing_def Chat_findOne_def env_ok_def empty_store_def hello_def)
  have first: "advance ''SYS'' (racing Creating) empty_store = (racing (WritingUser hello_chat), ?s1)"
    by (simp add: advance_def racing_def Chat_create_def ChatSchema_valid_def required_def
        falsy_def status_enum_def cast_string_def env_ok_def empty_store_def hello_def
        hello_chat_def Let_def)
  have second: "advance ''SYS'' (racing Creating) ?s1 = (racing Finished, ?s1)"
    by (simp add: advance_def racing_def Chat_create_def ChatSchema_valid_def required_def
        falsy_def status_enum_def cast_string_def env_ok_def hello_def hello_chat_def Let_def)
  have "interleaved ''SYS'' (empty_store, []) (empty_store, [racing Lookup])"
    using interleaved.arrival[OF v, where hs = "[]" and env = env_ok] by (simp add: racing_def)
  moreover have "interleaved ''SYS'' (empty_store, [racing Lookup])
                   (empty_store, [racing Lookup, racing Lookup])"
    using interleaved.arrival[OF v, where hs = "[racing Lookup]" and env = env_ok]
    by (simp add: racing_def)
  moreover have "interleaved ''SYS'' (empty_store, [racing Lookup, racing Lookup])
                   (empty_store, [racing Creating, racing Lookup])"
    using interleaved.progress[where i = 0 and hs = "[racing Lookup, racing Lookup]"
        and s = empty_store and h' = "racing Creating" and s' = empty_store and P = "''SYS''"]
      look by simp
  moreover have "interleaved ''SYS'' (empty_store, [racing Creating, racing Lookup])
                   (empty_store, [racing Creating, racing Creating])"
    using interleaved.progress[where i = 1 and hs = "[racing Creating, racing Lookup]"
        and s = empty_store and h' = "racing Creating" and s' = empty_store and P = "''SYS''"]
      look by simp
  moreover have "interleaved ''SYS'' (empty_store, [racing Creating, racing Creating])
                   (?s1, [racing (WritingUser hello_chat), racing Creating])"
    using interleaved.progress[where i = 0 and hs = "[racing Creating, racing Creating]"
        and s = empty_store and h' = "racing (WritingUser hello_chat)" and s' = ?s1
        and P = "''SYS''"]
      first by simp
  moreover have "interleaved ''SYS'' (?s1, [racing (WritingUser hello_chat), racing Creating])
                   (?s1, [racing (WritingUser hello_chat), racing Finished])"
    using interleaved.progress[where i = 1
        and hs = "[racing (WritingUser hello_chat), racing Creating]"
        and s = ?s1 and h' = "racing Finished" and s' = ?s1 and P = "''SYS''"]
      second by simp
  ultimately show ?thesis
    by (meson rtranclp.rtrancl_into_rtrancl rtranclp.rtrancl_refl)
qed

lemma hello_store_eq:
  "hello_store =
     \<lparr>chats = [\<lparr>chat_id = 1, userId = ''u1'', userEmail = ''a@b.com'',
                 status = ''ai_active'', lastMessageAt = 1000,
                 chat_createdAt = 1000, chat_updatedAt = 1000\<rparr>],
      messages = [\<lparr>message_id = 2, chatId = 1, content = ''Hello'',
                    senderType = ''user'', senderName = ''Client'',
                    senderUid = Some ''u1'', createdAt = 1005, updatedAt = 1005\<rparr>,
                  \<lparr>message_id = 3, chatId = 1, content = ''Hi there'',
                    senderType = ''ai'', senderName = ''K'artz Assistant'',
                    senderUid = None, createdAt = 1900, updatedAt = 1900\<rparr>]\<rparr>"
  by (simp add: hello_store_def hello_run)

lemma more_info_run:
  "send_message ''SYS'' env_later (Some more_info) hello_store =
     (Resolved,
      \<lparr>db = \<lparr>chats = [\<lparr>chat_id = 1, userId = ''u1'', userEmail = ''a@b.com'',
                        status = ''ai_active'', lastMessageAt = 2000,
                        chat_createdAt = 1000, chat_updatedAt = 2000\<rparr>],
             messages = [\<lparr>message_id = 2, chatId = 1, content = ''Hello'',
                           senderType = ''user'', senderName = ''Client'',
                           senderUid = Some ''u1'', createdAt = 1005, updatedAt = 1005\<rparr>,
                         \<lparr>message_id = 3, chatId = 1, content = ''Hi there'',
                           senderType = ''ai'', senderName = ''K'artz Assistant'',
                           senderUid = None, createdAt = 1900, updatedAt = 1900\<rparr>,
                         \<lparr>message_id = 4, chatId = 1, content = ''More info'',
                           senderType = ''user'', senderName = ''Ann'',
                           senderUid = Some ''u1'', createdAt = 2005, updatedAt = 2005\<rparr>,
                         \<lparr>message_id = 5, chatId = 1, content = ''Gladly'',
                           senderType = ''ai'', senderName = ''K'artz Assistant'',
                           senderUid = None, createdAt = 2900, updatedAt = 2900\<rparr>]\<rparr>,
       outbox = [\<lparr>wire_id = objectId_toString 5, wire_content = ''Gladly'',
                  wire_senderType = ''ai'', wire_senderName = ''K'artz Assistant'',
                  timestamp = 2900\<rparr>],
       trace = [Began FindChat, Completed FindChat, Began SaveChat, Completed SaveChat,
                Began WriteUserMessage, Completed WriteUserMessage,
                Began Generate, Completed Generate,
                Began WriteAssistantMessage, Completed WriteAssistantMessage, EmitReply]\<rparr>)"
  by (simp add: handler_defs env_later_def more_info_def hello_store_eq)

lemma two_messages_store:
  "run_events ''SYS'' [(env_ok, Some hello), (env_later, Some more_info)] empty_store
     = db (snd (send_message ''SYS'' env_later (Some more_info) hello_store))"
  by (simp add: hello_store_def)

text \<open>
  C5. From a store that respects the unique indexes (the empty store does), after any
  sequence of events handled by the first handler one after the other, whatever they
  carry and whatever fails, a user has at most one thread; and so after any
  interleaving of the steps of any number of handlers. And when the user of a valid
  event has a thread, the event creates none: the threads keep their identity, user,
  email, status and creation time, the threads of other users are untouched, and once
  \<open>chat.save\<close> has completed the thread of the user carries the clock reading of line 177
  as its last-activity time.
\<close>

theorem one_thread_per_user:
  assumes idx: "unique_indexes s"
  shows "length (threads_of u (run_events P evs s)) \<le> 1
       \<and> (\<forall>s' hs. (interleaved P)\<^sup>*\<^sup>* (s, []) (s', hs) \<longrightarrow> length (threads_of u s') \<le> 1)
       \<and> (\<forall>env d old.
            \<not> missing_data d \<longrightarrow> old \<in> set (chats s) \<longrightarrow> Some (userId old) = data_uid d \<longrightarrow>
              map thread_identity (chats (db (snd (send_message P env (Some d) s))))
                = map thread_identity (chats s)
              \<and> (\<forall>c \<in> set (chats s). c \<noteq> old \<longrightarrow>
                    c \<in> set (chats (db (snd (send_message P env (Some d) s)))))
              \<and> (Completed SaveChat \<in> set (trace (snd (send_message P env (Some d) s))) \<longrightarrow>
                    (\<exists>c \<in> set (chats (db (snd (send_message P env (Some d) s)))).
                       chat_id c = chat_id old \<and> lastMessageAt c = clock env TouchChat))
              \<and> Began CreateChat \<notin> set (trace (snd (send_message P env (Some d) s))))"
proof (intro conjI)
  have "distinct (map userId (chats (run_events P evs s)))"
    using run_events_unique[OF idx] by (simp add: unique_indexes_def)
  then show "length (threads_of u (run_events P evs s)) \<le> 1"
    unfolding threads_of_def by (rule distinct_key_filter)
next
  show "\<forall>s' hs. (interleaved P)\<^sup>*\<^sup>* (s, []) (s', hs) \<longrightarrow> length (threads_of u s') \<le> 1"
    using interleaved_one_thread[OF idx] by blast
next
  show "\<forall>env d old.
            \<not> missing_data d \<longrightarrow> old \<in> set (chats s) \<longrightarrow> Some (userId old) = data_uid d \<longrightarrow>
              map thread_identity (chats (db (snd (send_message P env (Some d) s))))
                = map thread_identity (chats s)
              \<and> (\<forall>c \<in> set (chats s). c \<noteq> old \<longrightarrow>
                    c \<in> set (chats (db (snd (send_message P env (Some d) s)))))
              \<and> (Completed SaveChat \<in> set (trace (snd (send_message P env (Some d) s))) \<longrightarrow>
                    (\<exists>c \<in> set (chats (db (snd (send_message P env (Some d) s)))).
                       chat_id c = chat_id old \<and> lastMessageAt c = clock env TouchChat))
              \<and> Began CreateChat \<notin> set (trace (snd (send_message P env (Some d) s)))"
    using existing_thread_reused[OF idx] by blast
qed

theorem one_thread_per_user_witness:
  "unique_indexes empty_store
   \<and> length (threads_of ''u1''
        (run_events ''SYS'' [(env_ok, Some hello), (env_later, Some more_info)] empty_store)) = 1
   \<and> length (messages
        (run_events ''SYS'' [(env_ok, Some hello), (env_later, Some more_info)] empty_store)) = 4
   \<and> (interleaved ''SYS'')\<^sup>*\<^sup>* (empty_store, [])
        (\<lparr>chats = [hello_chat], messages = []\<rparr>,
         [racing (WritingUser hello_chat), racing Finished])
   \<and> length (threads_of ''u1'' \<lparr>chats = [hello_chat], messages = []\<rparr>) = 1
   \<and> unique_indexes hello_store
   \<and> \<not> missing_data more_info
   \<and> hd (chats hello_store) \<in> set (chats hello_store)
   \<and> Some (userId (hd (chats hello_store))) = data_uid more_info
   \<and> map thread_identity (chats (db (snd (send_message ''SYS'' env_later (Some more_info) hello_store))))
       = map thread_identity (chats hello_store)
   \<and> Completed SaveChat \<in> set (trace (snd (send_message ''SYS'' env_later (Some more_info) hello_store)))
   \<and> (\<exists>c \<in> set (chats (db (snd (send_message ''SYS'' env_later (Some more_info) hello_store)))).
         chat_id c = chat_id (hd (chats hello_store)) \<and> lastMessageAt c = clock env_later TouchChat)
   \<and> Began CreateChat \<notin> set (trace (snd (send_message ''SYS'' env_later (Some more_info) hello_store)))"
proof -
  have e: "unique_indexes empty_store"
    by (simp add: unique_indexes_def empty_store_def)
  have h: "unique_indexes hello_store"
    by (simp add: unique_indexes_def hello_store_eq)
  have v: "\<not> missing_data more_info"
    by (simp add: missing_data_def falsy_def more_info_def)
  have old: "hd (chats hello_store) \<in> set (chats hello_store)"
    and mine: "Some (userId (hd (chats hello_store))) = data_uid more_info"
    by (simp_all add: hello_store_eq more_info_def)
  have saved: "Completed SaveChat
      \<in> set (trace (snd (send_message ''SYS'' env_later (Some more_info) hello_store)))"
    by (simp add: more_info_run)
  have one: "length (threads_of ''u1''
        (run_events ''SYS'' [(env_ok, Some hello), (env_later, Some more_info)] empty_store)) \<ge> 1"
    and four: "length (messages
        (run_events ''SYS'' [(env_ok, Some hello), (env_later, Some more_info)] empty_store)) = 4"
    unfolding two_messages_store by (simp_all add: more_info_run threads_of_def)
  have raced: "length (threads_of ''u1'' \<lparr>chats = [hello_chat], messages = []\<rparr>) \<ge> 1"
    by (simp add: threads_of_def hello_chat_def)
  show ?thesis
    using e h v old mine saved one four raced race
      one_thread_per_user[OF e, of "''u1''" "''SYS''"
        "[(env_ok, Some hello), (env_later, Some more_info)]"]
      one_thread_per_user[OF h, of "''u1''" "''SYS''" "[]"]
    by (auto simp: le_antisym)
qed

end
